theory Spec2Isabelle
  imports Main "HOL-Library.Word"
begin

section \<open>distro-seed: the seeding orchestrator of main.go\<close>

text \<open>
  The program is a single Go file. It reads a list of torrent sources, hands each one to
  a BitTorrent engine (the library \<^verbatim>\<open>anacrolix/torrent\<close>), keeps the resulting jobs open, and
  runs two periodic loops: one logs and persists the total number of bytes uploaded, the
  other re-announces jobs with few peers. The source directory holds several snapshots of
  the file; the definitions below follow the snapshot at main.go lines 180-480, and the
  two functions of the snapshot at lines 482-757 that differ from it, as well as the
  acquisition function of the first version of the program, are embedded under names of
  their own.

  Everything outside the file is an explicit part of the model: the file system is a map
  from paths to contents; the network, the disk faults met while caching a descriptor and
  the engine are fields of an environment record; a tick of a periodic loop carries what
  the engine reports at that moment and how the write of that tick ends; and every
  observable action of the program (a log line, a request, a started goroutine, a call
  into the engine) is appended to a trace.
\<close>

subsection \<open>Machine integers, formatting and scanning\<close>

text \<open>
  Go's \<^verbatim>\<open>int64\<close> is a 64-bit word read as two's complement: addition and subtraction wrap.
\<close>

type_synonym int64 = "64 word"

text \<open>
  \<^verbatim>\<open>fmt.Fprintf(file, "%d", v)\<close> writes the decimal digits of the signed value, with a
  leading minus sign for a negative one.
\<close>

definition digit_char :: "nat \<Rightarrow> char" where
  "digit_char n = ''0123456789'' ! n"

fun digits10 :: "nat \<Rightarrow> string" where
  "digits10 n =
     (if n < 10 then [digit_char n] else digits10 (n div 10) @ [digit_char (n mod 10)])"

declare digits10.simps [simp del]

definition Fprintf_d :: "int64 \<Rightarrow> string" where
  "Fprintf_d v =
     (if sint v < 0 then CHR ''-'' # digits10 (nat (- sint v)) else digits10 (nat (sint v)))"

text \<open>
  \<^verbatim>\<open>fmt.Fscanf(file, "%d", &v)\<close> for an \<^verbatim>\<open>int64\<close>. A text is the list of its bytes, and
  the scanner reads it rune by rune, decoding UTF-8. Leading space runes are skipped: the
  ASCII blanks and the spaces beyond ASCII of the scanner's table (U+0085, U+00A0, U+1680,
  U+2000 to U+200A, U+2028, U+2029, U+202F, U+205F, U+3000), listed below by their UTF-8
  encodings; a newline before the number is an error, since \<^verbatim>\<open>Fscanf\<close> does not treat
  newlines as space. Then an optional sign is accepted, and the longest run of the
  characters \<^verbatim>\<open>0123456789\<close> is taken as the token and handed to
  \<^verbatim>\<open>strconv.ParseInt(tok, 10, 64)\<close>, which rejects an empty token and a value outside the
  64-bit range. Whatever follows the token is left unread; a byte that starts no space
  rune and is no sign or digit ends the scan. \<open>None\<close> stands for the error return.
\<close>

definition is_digit :: "char \<Rightarrow> bool" where
  "is_digit c \<longleftrightarrow> c \<in> set ''0123456789''"

definition digit_val :: "char \<Rightarrow> nat" where
  "digit_val c = of_char c - 48"

definition space_runes :: "string list" where
  "space_runes =
     [[CHR 0x09], [CHR 0x0B], [CHR 0x0C], [CHR 0x0D], [CHR 0x20],
      [CHR 0xC2, CHR 0x85], [CHR 0xC2, CHR 0xA0],
      [CHR 0xE1, CHR 0x9A, CHR 0x80],
      [CHR 0xE2, CHR 0x80, CHR 0x80], [CHR 0xE2, CHR 0x80, CHR 0x81],
      [CHR 0xE2, CHR 0x80, CHR 0x82], [CHR 0xE2, CHR 0x80, CHR 0x83],
      [CHR 0xE2, CHR 0x80, CHR 0x84], [CHR 0xE2, CHR 0x80, CHR 0x85],
      [CHR 0xE2, CHR 0x80, CHR 0x86], [CHR 0xE2, CHR 0x80, CHR 0x87],
      [CHR 0xE2, CHR 0x80, CHR 0x88], [CHR 0xE2, CHR 0x80, CHR 0x89],
      [CHR 0xE2, CHR 0x80, CHR 0x8A],
      [CHR 0xE2, CHR 0x80, CHR 0xA8], [CHR 0xE2, CHR 0x80, CHR 0xA9],
      [CHR 0xE2, CHR 0x80, CHR 0xAF],
      [CHR 0xE2, CHR 0x81, CHR 0x9F],
      [CHR 0xE3, CHR 0x80, CHR 0x80]]"

text \<open>
  The number of bytes of the space rune a text starts with, 0 when it starts with none.
\<close>

definition space_rune_width :: "string \<Rightarrow> nat" where
  "space_rune_width s =
     (case find (\<lambda>r. take (length r) s = r) space_runes of
        None \<Rightarrow> 0
      | Some r \<Rightarrow> length r)"

function SkipSpace :: "string \<Rightarrow> string option" where
  "SkipSpace [] = Some []"
| "SkipSpace (c # cs) =
     (if c = CHR 0x0A then None
      else (case space_rune_width (c # cs) of
              0 \<Rightarrow> Some (c # cs)
            | Suc n \<Rightarrow> SkipSpace (drop n cs)))"
  by pat_completeness auto

termination
  by (relation "measure length") simp_all

definition ParseInt :: "bool \<Rightarrow> string \<Rightarrow> int64 option" where
  "ParseInt neg tok =
     (if tok = [] \<or> \<not> list_all is_digit tok then None
      else (let n = int (foldl (\<lambda>a c. 10 * a + digit_val c) 0 tok);
                v = (if neg then - n else n)
            in if - (2 ^ 63) \<le> v \<and> v < 2 ^ 63 then Some (word_of_int v) else None))"

definition Fscanf_d :: "string \<Rightarrow> int64 option" where
  "Fscanf_d s =
     (case SkipSpace s of
        None \<Rightarrow> None
      | Some [] \<Rightarrow> None
      | Some (c # cs) \<Rightarrow>
          (let signed = (c = CHR ''+'' \<or> c = CHR ''-'');
               rest = (if signed then cs else c # cs);
               tok = takeWhile is_digit rest
           in ParseInt (c = CHR ''-'') tok))"

subsection \<open>The world: files and the trace of actions\<close>

type_synonym bytes = "8 word list"

datatype error =
    DownloadFailed
  | CreateFailed
  | SaveFailed
  | LoadFailed
  | AddFailed

datatype fatal = NoTorrentURLs | MkdirFailed | NewClientFailed

datatype goroutine =
    SignalHandler
  | SeedTorrent bytes
  | WaitForMagnetMetadata bytes
  | LogPeriodicTorrentStatus string int64
  | PeriodicAnnounce

text \<open>
  One constructor per \<^verbatim>\<open>log.Printf\<close> / \<^verbatim>\<open>log.Println\<close> call of the program, carrying the
  values the line is formatted from (the megabyte figures are logged as the byte counts
  they are computed from).
\<close>

datatype log_entry =
    WarnOpenStats
  | WarnReadStats
  | TorrentStatus string nat int64
  | TotalUploaded int64
  | ErrCreateStats
  | ErrWriteStats
  | Downloading string
  | TorrentFileSaved string
  | AddingMagnet string
  | ErrAddingMagnet string
  | ErrAddingTorrent string error
  | WaitingForMetadata bytes
  | MetadataRetrieved string
  | MagnetAdded bytes
  | Seeding string int
  | NowSeeding bytes
  | ReannouncingAll
  | Reannouncing string
  | ShuttingDown
  | Fatal fatal

datatype effect =
    Log log_entry
  | Stat string
  | HttpGet string
  | LoadFromFile string string
  | Go goroutine
  | DownloadAll bytes
  | ModifyTrackers bytes "string list list"
  | DhtAnnounce string bytes int bool

record world =
  files :: "string \<rightharpoonup> string"
  trace :: "effect list"

definition emit :: "effect \<Rightarrow> world \<Rightarrow> world" where
  "emit x w = w\<lparr>trace := trace w @ [x]\<rparr>"

text \<open>
  How one attempt to create a file and write a text into it ends: \<^verbatim>\<open>os.Create\<close> fails and
  nothing changes; or it succeeds, which truncates the file, and the write stops with an
  error after a number of bytes; or both succeed.
\<close>

datatype write_fault = NoFault | CreateFails | WriteFailsAfter nat

subsection \<open>Reading the persisted total (main.go lines 360-376)\<close>

text \<open>
  \<^verbatim>\<open>os.Open\<close> fails when no file is stored under the name; the permission errors it can
  also report are not modelled.
\<close>

definition readTotalUploaded :: "string \<Rightarrow> world \<Rightarrow> int64 \<times> world" where
  "readTotalUploaded seedStatsFile w =
     (case files w seedStatsFile of
        None \<Rightarrow> (0, emit (Log WarnOpenStats) w)
      | Some content \<Rightarrow>
          (case Fscanf_d content of
             None \<Rightarrow> (0, emit (Log WarnReadStats) w)
           | Some totalUploaded \<Rightarrow> (totalUploaded, w)))"

subsection \<open>The engine as the program observes it\<close>

text \<open>
  What the methods of a \<^verbatim>\<open>*torrent.Torrent\<close> return at one instant: the info-hash, the
  name, \<^verbatim>\<open>Stats().ConnStats.BytesWrittenData\<close> (bytes uploaded since the process started),
  the number of peer connections, \<^verbatim>\<open>Stats().TotalPeers\<close>, the announce list of the
  descriptor (a list of tiers), the total length and the bytes completed so far.
\<close>

record torrent =
  InfoHash :: bytes
  Name :: string
  BytesWrittenData :: int64
  PeerConns :: nat
  TotalPeers :: int
  AnnounceList :: "string list list"
  Length :: int
  BytesCompleted :: int

record client =
  Torrents :: "torrent list"
  DhtServers :: "string list"
  LocalPort :: int

definition hex_char :: "nat \<Rightarrow> char" where
  "hex_char n = ''0123456789abcdef'' ! n"

definition HexString :: "bytes \<Rightarrow> string" where
  "HexString bs = concat (map (\<lambda>b. [hex_char (unat b div 16), hex_char (unat b mod 16)]) bs)"

text \<open>
  What a goroutine blocked in a receive or a \<^verbatim>\<open>select\<close> is woken by: the cancellation of
  the context, the metadata of its torrent becoming available, or a tick of its ticker.
  A tick carries what the engine and the disk present while the tick is served.
\<close>

datatype event = CtxDone | GotInfo | Tick client write_fault

datatype pc = Running | Returned

subsection \<open>The stats flush (main.go lines 378-436)\<close>

record ledger =
  totalUploaded :: int64
  previousUploads :: "string \<rightharpoonup> int64"

text \<open>
  The \<^verbatim>\<open>for _, t := range client.Torrents()\<close> loop of lines 398-417. A key that is not in a
  Go map reads as 0.
\<close>

fun logCurrentTorrentStatus_range ::
  "torrent list \<Rightarrow> (string \<rightharpoonup> int64) \<Rightarrow> int64 \<Rightarrow> world \<Rightarrow> (string \<rightharpoonup> int64) \<times> int64 \<times> world"
where
  "logCurrentTorrentStatus_range [] prevUploads sessionUpload w =
     (prevUploads, sessionUpload, w)"
| "logCurrentTorrentStatus_range (t # ts) prevUploads sessionUpload w =
     (let uploaded = BytesWrittenData t;
          prevUploaded = (case prevUploads (HexString (InfoHash t)) of
                            None \<Rightarrow> 0 | Some v \<Rightarrow> v);
          increment = uploaded - prevUploaded
      in logCurrentTorrentStatus_range ts
           (prevUploads(HexString (InfoHash t) \<mapsto> uploaded))
           (sessionUpload + increment)
           (emit (Log (TorrentStatus (Name t) (PeerConns t) uploaded)) w))"

text \<open>
  Lines 419-436: the grand total is updated in memory, logged, and written: \<^verbatim>\<open>os.Create\<close>
  opens the stats file itself and truncates it, \<^verbatim>\<open>fmt.Fprintf\<close> writes the decimal text.
\<close>

definition write_stats :: "string \<Rightarrow> write_fault \<Rightarrow> int64 \<Rightarrow> world \<Rightarrow> world" where
  "write_stats seedStatsFile fault grandTotal w =
     (case fault of
        CreateFails \<Rightarrow> emit (Log ErrCreateStats) w
      | WriteFailsAfter n \<Rightarrow>
          emit (Log ErrWriteStats)
            (w\<lparr>files := (files w)(seedStatsFile \<mapsto> take n (Fprintf_d grandTotal))\<rparr>)
      | NoFault \<Rightarrow> w\<lparr>files := (files w)(seedStatsFile \<mapsto> Fprintf_d grandTotal)\<rparr>)"

definition logCurrentTorrentStatus ::
  "client \<Rightarrow> string \<Rightarrow> write_fault \<Rightarrow> ledger \<Rightarrow> world \<Rightarrow> ledger \<times> world"
where
  "logCurrentTorrentStatus cl seedStatsFile fault l w =
     (case logCurrentTorrentStatus_range (Torrents cl) (previousUploads l) 0 w of
        (previousUploads', sessionUpload, w1) \<Rightarrow>
          (let grandTotal = totalUploaded l + sessionUpload
           in (\<lparr>totalUploaded = grandTotal, previousUploads = previousUploads'\<rparr>,
               write_stats seedStatsFile fault grandTotal (emit (Log (TotalUploaded grandTotal)) w1))))"

text \<open>
  Lines 378-393: the map of previous uploads starts empty, then the loop serves whichever
  case of its \<^verbatim>\<open>select\<close> fires. The list of events is what fires, in order; when it is
  used up the goroutine is still blocked in the \<^verbatim>\<open>select\<close>.
\<close>

fun logPeriodicTorrentStatus_for ::
  "event list \<Rightarrow> string \<Rightarrow> ledger \<Rightarrow> world \<Rightarrow> pc \<times> ledger \<times> world"
where
  "logPeriodicTorrentStatus_for [] seedStatsFile l w = (Running, l, w)"
| "logPeriodicTorrentStatus_for (CtxDone # es) seedStatsFile l w = (Returned, l, w)"
| "logPeriodicTorrentStatus_for (GotInfo # es) seedStatsFile l w =
     logPeriodicTorrentStatus_for es seedStatsFile l w"
| "logPeriodicTorrentStatus_for (Tick cl fault # es) seedStatsFile l w =
     (case logCurrentTorrentStatus cl seedStatsFile fault l w of
        (l', w') \<Rightarrow> logPeriodicTorrentStatus_for es seedStatsFile l' w')"

definition logPeriodicTorrentStatus ::
  "event list \<Rightarrow> string \<Rightarrow> int64 \<Rightarrow> world \<Rightarrow> pc \<times> ledger \<times> world"
where
  "logPeriodicTorrentStatus es seedStatsFile grandTotal w =
     logPeriodicTorrentStatus_for es seedStatsFile
       \<lparr>totalUploaded = grandTotal, previousUploads = Map.empty\<rparr> w"

subsection \<open>The stats flush of the snapshot at main.go lines 670-713\<close>

text \<open>
  This snapshot keeps nothing in memory: every tick reads the stats file, adds the raw
  session counter of every torrent, and writes the sum back.
\<close>

fun logCurrentTorrentStatus_reread_range ::
  "torrent list \<Rightarrow> int64 \<Rightarrow> world \<Rightarrow> int64 \<times> world"
where
  "logCurrentTorrentStatus_reread_range [] grandTotal w = (grandTotal, w)"
| "logCurrentTorrentStatus_reread_range (t # ts) grandTotal w =
     (let uploaded = BytesWrittenData t
      in logCurrentTorrentStatus_reread_range ts (grandTotal + uploaded)
           (emit (Log (TorrentStatus (Name t) (PeerConns t) uploaded)) w))"

definition logCurrentTorrentStatus_reread ::
  "client \<Rightarrow> string \<Rightarrow> write_fault \<Rightarrow> world \<Rightarrow> world"
where
  "logCurrentTorrentStatus_reread cl seedStatsFile fault w =
     (case readTotalUploaded seedStatsFile w of
        (persisted, w0) \<Rightarrow>
          (case logCurrentTorrentStatus_reread_range (Torrents cl) persisted w0 of
             (grandTotal, w1) \<Rightarrow>
               write_stats seedStatsFile fault grandTotal (emit (Log (TotalUploaded grandTotal)) w1)))"

fun logPeriodicTorrentStatus_reread :: "event list \<Rightarrow> string \<Rightarrow> world \<Rightarrow> pc \<times> world" where
  "logPeriodicTorrentStatus_reread [] seedStatsFile w = (Running, w)"
| "logPeriodicTorrentStatus_reread (CtxDone # es) seedStatsFile w = (Returned, w)"
| "logPeriodicTorrentStatus_reread (GotInfo # es) seedStatsFile w =
     logPeriodicTorrentStatus_reread es seedStatsFile w"
| "logPeriodicTorrentStatus_reread (Tick cl fault # es) seedStatsFile w =
     logPeriodicTorrentStatus_reread es seedStatsFile
       (logCurrentTorrentStatus_reread cl seedStatsFile fault w)"

subsection \<open>Strings and paths\<close>

text \<open>
  \<^verbatim>\<open>strings.Split(input, ",")\<close>; \<^verbatim>\<open>strings.TrimSpace\<close>, which drops from the front and
  then from the back of a text every rune that \<^verbatim>\<open>unicode.IsSpace\<close> accepts (the newline
  and the space runes listed above, matched by their UTF-8 encodings);
  \<^verbatim>\<open>strings.HasPrefix\<close>; and \<^verbatim>\<open>filepath.Base\<close> on a system whose separator is the slash:
  the empty path gives a dot, trailing slashes are dropped, what follows the last slash is
  the result, and a path of slashes only gives one slash.
\<close>

fun strings_Split :: "char \<Rightarrow> string \<Rightarrow> string list" where
  "strings_Split sep [] = [[]]"
| "strings_Split sep (c # cs) =
     (if c = sep then [] # strings_Split sep cs
      else (case strings_Split sep cs of
              [] \<Rightarrow> [[c]]
            | part # parts \<Rightarrow> (c # part) # parts))"

definition unicode_IsSpace :: "string list" where
  "unicode_IsSpace = [CHR 0x0A] # space_runes"

function strings_TrimLeft :: "string list \<Rightarrow> string \<Rightarrow> string" where
  "strings_TrimLeft runes s =
     (case find (\<lambda>r. r \<noteq> [] \<and> take (length r) s = r) runes of
        None \<Rightarrow> s
      | Some r \<Rightarrow> strings_TrimLeft runes (drop (length r) s))"
  by pat_completeness auto

termination
proof (relation "measure (\<lambda>(runes, s). length s)")
  show "wf (measure (\<lambda>(runes, s). length s))" by simp
next
  fix runes :: "string list" and s r :: string
  assume "find (\<lambda>r. r \<noteq> [] \<and> take (length r) s = r) runes = Some r"
  then have "r \<noteq> []" and "take (length r) s = r"
    by (auto simp: find_Some_iff)
  then have "s \<noteq> []" by auto
  with \<open>r \<noteq> []\<close> show "((runes, drop (length r) s), (runes, s)) \<in> measure (\<lambda>(runes, s). length s)"
    by simp
qed

declare strings_TrimLeft.simps [simp del]

definition strings_TrimSpace :: "string \<Rightarrow> string" where
  "strings_TrimSpace s =
     rev (strings_TrimLeft (map rev unicode_IsSpace) (rev (strings_TrimLeft unicode_IsSpace s)))"

definition strings_HasPrefix :: "string \<Rightarrow> string \<Rightarrow> bool" where
  "strings_HasPrefix s prefix \<longleftrightarrow> take (length prefix) s = prefix"

definition filepath_Base :: "string \<Rightarrow> string" where
  "filepath_Base path =
     (if path = [] then ''.''
      else (let stripped = rev (dropWhile (\<lambda>c. c = CHR ''/'') (rev path));
                last_elem = rev (takeWhile (\<lambda>c. c \<noteq> CHR ''/'') (rev stripped))
            in if last_elem = [] then ''/'' else last_elem))"

text \<open>
  \<^verbatim>\<open>filepath.Join\<close> puts a slash between its two arguments and then cleans the result;
  the cleaning is not modelled. The properties below use only that equal arguments give
  equal paths, or are stated on the joined paths themselves.
\<close>

definition filepath_Join :: "string \<Rightarrow> string \<Rightarrow> string" where
  "filepath_Join dir elem = (if dir = [] then elem else dir @ ''/'' @ elem)"

subsection \<open>Configuration (main.go lines 242-255)\<close>

definition getEnv :: "(string \<rightharpoonup> string) \<Rightarrow> string \<Rightarrow> string \<Rightarrow> string" where
  "getEnv environ key fallback = (case environ key of Some v \<Rightarrow> v | None \<Rightarrow> fallback)"

definition parseTorrentURLs :: "string \<Rightarrow> string list" where
  "parseTorrentURLs input = map strings_TrimSpace (strings_Split CHR '','' input)"

subsection \<open>What the program calls into\<close>

text \<open>
  The collaborators of the program, as it sees them:
  \<^item> \<open>http_Get\<close>: \<^verbatim>\<open>http.Get(url)\<close> returns an error (\<open>None\<close>) or a response whose body
    is read whatever its status;
  \<^item> \<open>disk\<close>: how creating the file at a path and writing into it ends;
  \<^item> \<open>metainfo_Load\<close>: the decoding done by \<^verbatim>\<open>metainfo.LoadFromFile\<close> on the bytes of a
    file, giving the info-hash of the descriptor or an error;
  \<^item> \<open>AddTorrent\<close>: whether \<^verbatim>\<open>client.AddTorrent\<close> accepts the descriptor (the handle it
    returns is identified by the info-hash);
  \<^item> \<open>AddMagnet\<close>: \<^verbatim>\<open>client.AddMagnet(url)\<close>, a handle or an error;
  \<^item> \<open>metadata_arrives\<close>: whether the engine ever obtains the metadata of a torrent,
    and \<open>metadata_in_time\<close>: whether it does so within 30 seconds;
  \<^item> \<open>MkdirAll_fails\<close>, \<open>NewClient_fails\<close>: whether \<^verbatim>\<open>os.MkdirAll\<close> and
    \<^verbatim>\<open>torrent.NewClient\<close> report an error.
\<close>

record env =
  http_Get :: "string \<Rightarrow> string option"
  disk :: "string \<Rightarrow> write_fault"
  metainfo_Load :: "string \<Rightarrow> bytes option"
  AddTorrent :: "bytes \<Rightarrow> bool"
  AddMagnet :: "string \<Rightarrow> bytes option"
  metadata_arrives :: "bytes \<Rightarrow> bool"
  metadata_in_time :: "bytes \<Rightarrow> bool"
  MkdirAll_fails :: "string \<Rightarrow> bool"
  NewClient_fails :: bool

subsection \<open>Acquiring a descriptor (main.go lines 313-349)\<close>

text \<open>
  Lines 338-348: the descriptor is loaded from the cache file and handed to the engine.
\<close>

definition addTorrent_load :: "env \<Rightarrow> string \<Rightarrow> world \<Rightarrow> (error + bytes) \<times> world" where
  "addTorrent_load e torrentPath w =
     (case files w torrentPath of
        None \<Rightarrow> (Inl LoadFailed, w)
      | Some content \<Rightarrow>
          (let w' = emit (LoadFromFile torrentPath content) w
           in case metainfo_Load e content of
                None \<Rightarrow> (Inl LoadFailed, w')
              | Some meta \<Rightarrow> if AddTorrent e meta then (Inr meta, w') else (Inl AddFailed, w')))"

text \<open>
  Lines 315-336: \<^verbatim>\<open>os.Stat\<close> on the cache path; only when no file is there, the URL is
  fetched, the cache file is created and the body is copied into it. A file is taken to
  exist exactly when the file system stores a content under its path.
\<close>

definition addTorrent :: "env \<Rightarrow> string \<Rightarrow> string \<Rightarrow> world \<Rightarrow> (error + bytes) \<times> world" where
  "addTorrent e url downloadDir w =
     (let torrentPath = filepath_Join downloadDir (filepath_Base url);
          w0 = emit (Stat torrentPath) w
      in case files w0 torrentPath of
           None \<Rightarrow>
             (let w1 = emit (HttpGet url) (emit (Log (Downloading url)) w0)
              in case http_Get e url of
                   None \<Rightarrow> (Inl DownloadFailed, w1)
                 | Some body \<Rightarrow>
                     (case disk e torrentPath of
                        CreateFails \<Rightarrow> (Inl CreateFailed, w1)
                      | WriteFailsAfter n \<Rightarrow>
                          (Inl SaveFailed,
                           w1\<lparr>files := (files w1)(torrentPath \<mapsto> take n body)\<rparr>)
                      | NoFault \<Rightarrow>
                          addTorrent_load e torrentPath
                            (emit (Log (TorrentFileSaved torrentPath))
                               (w1\<lparr>files := (files w1)(torrentPath \<mapsto> body)\<rparr>))))
         | Some cached \<Rightarrow> addTorrent_load e torrentPath w0)"

subsection \<open>The first version of the program (unnamed part 002, lines 86-135)\<close>

text \<open>
  \<^verbatim>\<open>downloadAndSeed\<close> runs the statements of \<open>addTorrent\<close> (its lines 88-123 are lines
  315-346 above, with \<^verbatim>\<open>torrentFile\<close> for \<^verbatim>\<open>torrentPath\<close>), then waits for the metadata
  for at most 30 seconds.
\<close>

datatype seed_error = Acquire error | MetadataTimeout

definition downloadAndSeed ::
  "env \<Rightarrow> string \<Rightarrow> string \<Rightarrow> world \<Rightarrow> (seed_error + bytes) \<times> world"
where
  "downloadAndSeed e url downloadDir w =
     (case addTorrent e url downloadDir w of
        (Inl err, w') \<Rightarrow> (Inl (Acquire err), w')
      | (Inr t, w') \<Rightarrow>
          if metadata_in_time e t
          then (Inr t, emit (Log (NowSeeding t)) (emit (DownloadAll t) w'))
          else (Inl MetadataTimeout, w'))"

subsection \<open>Starting the jobs (main.go lines 284-311)\<close>

fun processTorrents :: "env \<Rightarrow> string list \<Rightarrow> string \<Rightarrow> world \<Rightarrow> world" where
  "processTorrents e [] downloadDir w = w"
| "processTorrents e (url # urls) downloadDir w =
     (if strings_HasPrefix url ''magnet:?'' then
        (let w1 = emit (Log (AddingMagnet url)) w
         in case AddMagnet e url of
              None \<Rightarrow> processTorrents e urls downloadDir (emit (Log (ErrAddingMagnet url)) w1)
            | Some t \<Rightarrow> processTorrents e urls downloadDir (emit (Go (WaitForMagnetMetadata t)) w1))
      else
        (case addTorrent e url downloadDir w of
           (Inl err, w') \<Rightarrow>
             processTorrents e urls downloadDir (emit (Log (ErrAddingTorrent url err)) w')
         | (Inr t, w') \<Rightarrow> processTorrents e urls downloadDir (emit (Go (SeedTorrent t)) w')))"

text \<open>
  The goroutines. Each is given as the point it has reached, and what it has done, once
  the events of a history have happened. A closed channel stays closed: a receive from
  \<^verbatim>\<open>t.GotInfo()\<close> returns as soon as the metadata has arrived at any earlier time, and a
  receive from \<^verbatim>\<open>ctx.Done()\<close> as soon as the context has been cancelled at any earlier
  time. \<^verbatim>\<open>DownloadAll\<close> marks every piece of the torrent as wanted and returns; it does
  not wait for the download.
\<close>

definition waitForMagnetMetadata :: "torrent \<Rightarrow> event list \<Rightarrow> world \<Rightarrow> pc \<times> world" where
  "waitForMagnetMetadata t history w =
     (let w0 = emit (Log (WaitingForMetadata (InfoHash t))) w
      in if GotInfo \<in> set history
         then (Returned,
               emit (Go (SeedTorrent (InfoHash t))) (emit (Log (MetadataRetrieved (Name t))) w0))
         else (Running, w0))"

definition seedTorrent :: "torrent \<Rightarrow> event list \<Rightarrow> world \<Rightarrow> pc \<times> world" where
  "seedTorrent t history w =
     (if GotInfo \<in> set history
      then (let w' = emit (Log (Seeding (Name t) (Length t div 1024 div 1024)))
                       (emit (DownloadAll (InfoHash t)) w)
            in if CtxDone \<in> set history then (Returned, w') else (Running, w'))
      else (Running, w))"

subsection \<open>Starting the jobs in the snapshot at main.go lines 580-602\<close>

text \<open>
  Here the loop itself waits for the metadata of a magnet link before it goes on to the
  next source. \<open>Running\<close> is the loop blocked in that wait for good.
\<close>

fun processTorrents_inline :: "env \<Rightarrow> string list \<Rightarrow> string \<Rightarrow> world \<Rightarrow> pc \<times> world" where
  "processTorrents_inline e [] downloadDir w = (Returned, w)"
| "processTorrents_inline e (url # urls) downloadDir w =
     (if strings_HasPrefix url ''magnet:?'' then
        (let w1 = emit (Log (AddingMagnet url)) w
         in case AddMagnet e url of
              None \<Rightarrow>
                processTorrents_inline e urls downloadDir (emit (Log (ErrAddingMagnet url)) w1)
            | Some t \<Rightarrow>
                if metadata_arrives e t
                then processTorrents_inline e urls downloadDir
                       (emit (Go (SeedTorrent t)) (emit (Log (MagnetAdded t)) w1))
                else (Running, w1))
      else
        (case addTorrent e url downloadDir w of
           (Inl err, w') \<Rightarrow>
             processTorrents_inline e urls downloadDir (emit (Log (ErrAddingTorrent url err)) w')
         | (Inr t, w') \<Rightarrow>
             processTorrents_inline e urls downloadDir (emit (Go (SeedTorrent t)) w')))"

subsection \<open>The health monitor (main.go lines 438-469)\<close>

text \<open>
  \<^verbatim>\<open>copy(infoHash[:], t.InfoHash().Bytes())\<close> fills an array of 20 bytes, which starts as
  zeros, with at most 20 bytes of the source.
\<close>

definition copy20 :: "bytes \<Rightarrow> bytes" where
  "copy20 src = take 20 src @ replicate (20 - length src) 0"

fun announce_trackers :: "bytes \<Rightarrow> string list list \<Rightarrow> world \<Rightarrow> world" where
  "announce_trackers h [] w = w"
| "announce_trackers h (tracker # trackers) w =
     announce_trackers h trackers (emit (ModifyTrackers h [tracker]) w)"

fun announce_dht :: "bytes \<Rightarrow> int \<Rightarrow> string list \<Rightarrow> world \<Rightarrow> world" where
  "announce_dht infoHash port [] w = w"
| "announce_dht infoHash port (dhtServer # dhtServers) w =
     announce_dht infoHash port dhtServers (emit (DhtAnnounce dhtServer infoHash port True) w)"

fun periodicAnnounce_range :: "client \<Rightarrow> torrent list \<Rightarrow> world \<Rightarrow> world" where
  "periodicAnnounce_range cl [] w = w"
| "periodicAnnounce_range cl (t # ts) w =
     (if TotalPeers t < 10 then
        periodicAnnounce_range cl ts
          (announce_dht (copy20 (InfoHash t)) (LocalPort cl) (DhtServers cl)
             (announce_trackers (InfoHash t) (AnnounceList t)
                (emit (Log (Reannouncing (Name t))) w)))
      else periodicAnnounce_range cl ts w)"

fun periodicAnnounce :: "event list \<Rightarrow> world \<Rightarrow> pc \<times> world" where
  "periodicAnnounce [] w = (Running, w)"
| "periodicAnnounce (CtxDone # es) w = (Returned, w)"
| "periodicAnnounce (GotInfo # es) w = periodicAnnounce es w"
| "periodicAnnounce (Tick cl fault # es) w =
     periodicAnnounce es (periodicAnnounce_range cl (Torrents cl) (emit (Log ReannouncingAll) w))"

subsection \<open>Startup (main.go lines 203-240)\<close>

text \<open>
  A flag given on the command line wins over the environment variable, which wins over
  the built-in default. \<^verbatim>\<open>log.Fatal\<close> logs and ends the process: the result is the fatal
  error and the world as it was left. \<open>None\<close> is the main goroutine reaching its wait for
  the cancellation at line 238.
\<close>

record config =
  flag_dir :: "string option"
  flag_url :: "string option"
  environ :: "string \<rightharpoonup> string"

definition torrentURLs :: "config \<Rightarrow> string" where
  "torrentURLs cfg =
     (case flag_url cfg of Some u \<Rightarrow> u | None \<Rightarrow> getEnv (environ cfg) ''TORRENT_URLS'' [])"

definition downloadDir_of :: "config \<Rightarrow> string" where
  "downloadDir_of cfg =
     (case flag_dir cfg of
        Some d \<Rightarrow> d
      | None \<Rightarrow> getEnv (environ cfg) ''DOWNLOAD_DIR'' ''./downloads'')"

definition main :: "env \<Rightarrow> config \<Rightarrow> world \<Rightarrow> fatal option \<times> world" where
  "main e cfg w =
     (let w0 = emit (Go SignalHandler) w;
          downloadDir = downloadDir_of cfg;
          seedStatsFile = filepath_Join downloadDir ''seed_stats.txt''
      in if torrentURLs cfg = [] then (Some NoTorrentURLs, emit (Log (Fatal NoTorrentURLs)) w0)
         else (let torrentList = parseTorrentURLs (torrentURLs cfg)
               in if MkdirAll_fails e downloadDir
                  then (Some MkdirFailed, emit (Log (Fatal MkdirFailed)) w0)
                  else if NewClient_fails e
                  then (Some NewClientFailed, emit (Log (Fatal NewClientFailed)) w0)
                  else (case readTotalUploaded seedStatsFile w0 of
                          (total0, w1) \<Rightarrow>
                            (None,
                             processTorrents e torrentList downloadDir
                               (emit (Go PeriodicAnnounce)
                                  (emit (Go (LogPeriodicTorrentStatus seedStatsFile total0)) w1))))))"

subsection \<open>Notions used to state the properties\<close>

text \<open>
  What a text starts with: a space rune, a decimal digit, a number (a digit, or a sign
  followed by a digit). The value of a digit string in positional notation. A well-formed
  record of the stats file: a non-empty digit string, or a minus sign followed by one;
  every text the flush writes is of this form.
\<close>

definition starts_blank :: "string \<Rightarrow> bool" where
  "starts_blank s \<longleftrightarrow> (\<exists>r \<in> set space_runes. take (length r) s = r)"

definition starts_digit :: "string \<Rightarrow> bool" where
  "starts_digit s \<longleftrightarrow> (case s of [] \<Rightarrow> False | c # cs \<Rightarrow> is_digit c)"

definition starts_number :: "string \<Rightarrow> bool" where
  "starts_number s \<longleftrightarrow>
     (case s of
        [] \<Rightarrow> False
      | c # cs \<Rightarrow> is_digit c \<or> ((c = CHR ''+'' \<or> c = CHR ''-'') \<and> starts_digit cs))"

definition decimal :: "string \<Rightarrow> int" where
  "decimal ds = (\<Sum>i < length ds. int (digit_val (ds ! i)) * 10 ^ (length ds - Suc i))"

definition well_formed_record :: "string \<Rightarrow> bool" where
  "well_formed_record s \<longleftrightarrow>
     (case s of
        [] \<Rightarrow> False
      | c # cs \<Rightarrow>
          if c = CHR ''-'' then cs \<noteq> [] \<and> list_all is_digit cs
          else list_all is_digit (c # cs))"

text \<open>
  The requests, the descriptor loads and the started goroutines recorded in a trace. The
  key under which the loop files a torrent, the value of a hexadecimal digit, the sum of
  the counters last observed for every key of the map, what the loop keeps true from tick to tick (the in-memory total
  is the total read at start plus that sum), and the keys seen in a series of events.
\<close>

definition fetches :: "world \<Rightarrow> string list" where
  "fetches w = [url. HttpGet url \<leftarrow> trace w]"

definition loads :: "world \<Rightarrow> (string \<times> string) list" where
  "loads w = [(path, content). LoadFromFile path content \<leftarrow> trace w]"

definition goroutines :: "world \<Rightarrow> goroutine list" where
  "goroutines w = [g. Go g \<leftarrow> trace w]"

abbreviation keys_of :: "torrent list \<Rightarrow> string list" where
  "keys_of ts \<equiv> map (\<lambda>t. HexString (InfoHash t)) ts"

definition hex_val :: "char \<Rightarrow> nat" where
  "hex_val c = (if is_digit c then of_char c - 48 else of_char c - 87)"

definition seen_sum :: "(string \<rightharpoonup> int64) \<Rightarrow> int64" where
  "seen_sum p = (\<Sum>k\<in>dom p. the (p k))"

definition ledger_inv :: "int64 \<Rightarrow> ledger \<Rightarrow> bool" where
  "ledger_inv T l \<longleftrightarrow>
     finite (dom (previousUploads l)) \<and> totalUploaded l = T + seen_sum (previousUploads l)"

fun tick_keys :: "event list \<Rightarrow> string set" where
  "tick_keys [] = {}"
| "tick_keys (Tick cl fault # es) = set (keys_of (Torrents cl)) \<union> tick_keys es"
| "tick_keys (e # es) = tick_keys es"

text \<open>
  A job fails when the engine rejects its magnet link or \<open>addTorrent\<close> returns an error.
  Two worlds agree off a set of paths when the same goroutines have been started in both
  and every file outside the set is the same in both.
\<close>

definition job_fails :: "env \<Rightarrow> string \<Rightarrow> string \<Rightarrow> world \<Rightarrow> bool" where
  "job_fails e url dir w \<longleftrightarrow>
     (if strings_HasPrefix url ''magnet:?'' then AddMagnet e url = None
      else isl (fst (addTorrent e url dir w)))"

definition agree_off :: "string set \<Rightarrow> world \<Rightarrow> world \<Rightarrow> bool" where
  "agree_off P wa wb \<longleftrightarrow>
     goroutines wa = goroutines wb \<and> (\<forall>q. q \<notin> P \<longrightarrow> files wa q = files wb q)"

subsection \<open>Concrete inputs\<close>

text \<open>
  A client with one job, and a world whose only file is the stats file; the theorems at
  concrete inputs are stated on them.
\<close>

definition one_job :: "int64 \<Rightarrow> client" where
  "one_job uploaded =
     \<lparr>Torrents =
        [\<lparr>InfoHash = [0xDE, 0xB1], Name = ''debian-12.9.0-amd64-netinst.iso'',
          BytesWrittenData = uploaded, PeerConns = 3, TotalPeers = 12,
          AnnounceList = [[''http://bttracker.debian.org:6969/announce'']],
          Length = 1000, BytesCompleted = 1000\<rparr>],
      DhtServers = [''dht4''], LocalPort = 42069\<rparr>"

definition stats_at :: "string \<Rightarrow> world" where
  "stats_at content = \<lparr>files = [''downloads/seed_stats.txt'' \<mapsto> content], trace = []\<rparr>"

text \<open>
  An environment with two mirrors whose URLs end in the same file name: the first serves a
  descriptor, the second answers with an error page; every other URL is unreachable. The
  engine accepts every descriptor and knows one magnet link, whose metadata never arrives.
  The same environment with a disk on which every write stops after four bytes.
\<close>

definition mirrors :: env where
  "mirrors =
     \<lparr>http_Get = (\<lambda>url. if url = ''http://a.example/debian.torrent''
                           then Some ''d4:infod6:lengthi1eee''
                         else if url = ''http://b.example/debian.torrent''
                           then Some ''<html>404</html>''
                         else None),
      disk = (\<lambda>path. NoFault),
      metainfo_Load = (\<lambda>content. if content = ''d4:infod6:lengthi1eee''
                                    then Some [0xDE, 0xB1] else None),
      AddTorrent = (\<lambda>meta. True),
      AddMagnet = (\<lambda>url. if url = ''magnet:?xt=urn:btih:c0ffee''
                            then Some [0xC0, 0xFF, 0xEE] else None),
      metadata_arrives = (\<lambda>t. False),
      metadata_in_time = (\<lambda>t. True),
      MkdirAll_fails = (\<lambda>dir. False),
      NewClient_fails = False\<rparr>"

definition failing_disk :: env where
  "failing_disk = mirrors\<lparr>disk := (\<lambda>path. WriteFailsAfter 4)\<rparr>"

definition empty_world :: world where
  "empty_world = \<lparr>files = Map.empty, trace = []\<rparr>"

text \<open>
  A job with a given number of peers and none of its 600 MB downloaded, an engine with one
  DHT server, and two configurations: one without any source, one whose environment names
  the first mirror.
\<close>

definition job_with_peers :: "int \<Rightarrow> torrent" where
  "job_with_peers n =
     \<lparr>InfoHash = replicate 20 0xAB, Name = ''ubuntu-24.04-live-server-amd64.iso'',
      BytesWrittenData = 0, PeerConns = 2, TotalPeers = n,
      AnnounceList = [[''https://torrent.ubuntu.com/announce''],
                      [''https://ipv6.torrent.ubuntu.com/announce'']],
      Length = 629145600, BytesCompleted = 0\<rparr>"

definition engine_of :: "torrent list \<Rightarrow> client" where
  "engine_of ts = \<lparr>Torrents = ts, DhtServers = [''dht-udp4''], LocalPort = 42069\<rparr>"

text \<open>
  A job with 9 peers whose announce list is a single tier of three trackers, and an engine
  with two DHT servers.
\<close>

definition tiered_job :: torrent where
  "tiered_job =
     \<lparr>InfoHash = replicate 20 0xCD, Name = ''debian-12.9.0-amd64-DVD-1.iso'',
      BytesWrittenData = 0, PeerConns = 1, TotalPeers = 9,
      AnnounceList = [[''http://t1.example/announce'', ''http://t2.example/announce'',
                       ''udp://t3.example:6969'']],
      Length = 3900000000, BytesCompleted = 3900000000\<rparr>"

definition dual_stack_engine :: "torrent list \<Rightarrow> client" where
  "dual_stack_engine ts = \<lparr>Torrents = ts, DhtServers = [''dht-udp4'', ''dht-udp6''], LocalPort = 42069\<rparr>"

definition no_sources :: config where
  "no_sources = \<lparr>flag_dir = None, flag_url = None, environ = Map.empty\<rparr>"

definition one_source :: config where
  "one_source =
     \<lparr>flag_dir = Some ''dl'', flag_url = None,
      environ = [''TORRENT_URLS'' \<mapsto> '' http://a.example/debian.torrent'']\<rparr>"

section \<open>Properties\<close>

subsection \<open>Decimal text\<close>

lemma digits10_small: "n < 10 \<Longrightarrow> digits10 n = [digit_char n]"
  by (subst digits10.simps) simp

lemma digits10_large:
  "\<not> n < 10 \<Longrightarrow> digits10 n = digits10 (n div 10) @ [digit_char (n mod 10)]"
  by (subst digits10.simps) simp

lemma below_ten: "n < 10 \<Longrightarrow> n \<in> {0, 1, 2, 3, 4, 5, 6, 7, 8, 9 :: nat}"
  by auto

lemma digit_char_is_digit: "n < 10 \<Longrightarrow> is_digit (digit_char n)"
  by (drule below_ten) (auto simp: is_digit_def digit_char_def)

lemma digit_val_digit_char: "n < 10 \<Longrightarrow> digit_val (digit_char n) = n"
  by (drule below_ten) (auto simp: digit_val_def digit_char_def)

lemma digits10_all_digits: "list_all is_digit (digits10 n)"
proof (induction n rule: digits10.induct)
  case (1 n)
  show ?case
  proof (cases "n < 10")
    case True
    then show ?thesis by (simp add: digits10_small digit_char_is_digit)
  next
    case False
    with 1 show ?thesis by (simp add: digits10_large digit_char_is_digit)
  qed
qed

lemma digits10_nonempty: "digits10 n \<noteq> []"
  by (subst digits10.simps) simp

lemma foldl_digits10: "foldl (\<lambda>a c. 10 * a + digit_val c) 0 (digits10 n) = n"
proof (induction n rule: digits10.induct)
  case (1 n)
  show ?case
  proof (cases "n < 10")
    case True
    then show ?thesis by (simp add: digits10_small digit_val_digit_char)
  next
    case False
    with 1 show ?thesis by (simp add: digits10_large digit_val_digit_char)
  qed
qed

lemma space_rune_skipped:
  "r \<in> set space_runes \<Longrightarrow> SkipSpace (r @ s) = SkipSpace s"
  by (auto simp: space_rune_width_def space_runes_def)

lemma blanks_skipped:
  "set rs \<subseteq> set space_runes \<Longrightarrow> SkipSpace (concat rs @ s) = SkipSpace s"
  by (induction rs) (simp_all add: space_rune_skipped)

lemma no_blank_stays:
  "\<not> starts_blank (c # cs) \<Longrightarrow> c \<noteq> CHR 0x0A \<Longrightarrow> SkipSpace (c # cs) = Some (c # cs)"
  by (simp add: starts_blank_def space_rune_width_def find_None_iff [THEN iffD2])

lemma digit_not_blank: "is_digit c \<Longrightarrow> \<not> starts_blank (c # cs) \<and> c \<noteq> CHR 0x0A \<and> c \<noteq> CHR ''+'' \<and> c \<noteq> CHR ''-''"
  by (auto simp: is_digit_def starts_blank_def space_runes_def)

lemma sign_not_blank: "c = CHR ''+'' \<or> c = CHR ''-'' \<Longrightarrow> \<not> starts_blank (c # cs) \<and> c \<noteq> CHR 0x0A"
  by (auto simp: starts_blank_def space_runes_def)


lemma foldl_positional:
  "int (foldl (\<lambda>a c. 10 * a + digit_val c) a ds)
     = int a * 10 ^ length ds + decimal ds"
proof (induction ds arbitrary: a)
  case Nil
  show ?case by (simp add: decimal_def)
next
  case (Cons d ds)
  have "decimal (d # ds) = int (digit_val d) * 10 ^ length ds + decimal ds"
    unfolding decimal_def by (simp add: sum.lessThan_Suc_shift del: sum.lessThan_Suc)
  with Cons [of "10 * a + digit_val d"] show ?case
    by (simp add: algebra_simps)
qed

lemma takeWhile_token:
  assumes "list_all is_digit ds" and "\<not> starts_digit rest"
  shows "takeWhile is_digit (ds @ rest) = ds"
proof -
  have "takeWhile is_digit rest = []"
    using assms(2) by (cases rest) (auto simp: starts_digit_def)
  with assms(1) show ?thesis
    by (simp add: takeWhile_append2 list_all_iff)
qed

lemma ParseInt_digits:
  assumes "ds \<noteq> []" and "list_all is_digit ds"
  shows "ParseInt neg ds
           = (let v = (if neg then - decimal ds else decimal ds)
              in if - (2 ^ 63) \<le> v \<and> v < 2 ^ 63 then Some (word_of_int v) else None)"
  using assms foldl_positional [of 0 ds] by (simp add: ParseInt_def Let_def)

lemma Fscanf_d_unsigned:
  assumes "set rs \<subseteq> set space_runes" and "ds \<noteq> []" and "list_all is_digit ds"
    and "\<not> starts_digit rest"
  shows "Fscanf_d (concat rs @ ds @ rest) = ParseInt False ds"
proof -
  obtain c cs where ds: "ds = c # cs" using assms(2) by (cases ds) auto
  then have c: "is_digit c" using assms(3) by simp
  have "SkipSpace (concat rs @ ds @ rest) = Some (c # cs @ rest)"
    using blanks_skipped [OF assms(1), of "ds @ rest"] digit_not_blank [OF c, of "cs @ rest"]
    by (simp add: ds no_blank_stays del: SkipSpace.simps)
  moreover have "takeWhile is_digit (c # cs @ rest) = ds"
    using takeWhile_token [OF assms(3,4)] by (simp add: ds)
  ultimately show ?thesis
    using digit_not_blank [OF c, of cs] by (simp add: Fscanf_d_def del: takeWhile.simps)
qed

lemma Fscanf_d_signed:
  assumes "set rs \<subseteq> set space_runes" and "ds \<noteq> []" and "list_all is_digit ds"
    and "\<not> starts_digit rest" and "c = CHR ''+'' \<or> c = CHR ''-''"
  shows "Fscanf_d (concat rs @ c # ds @ rest) = ParseInt (c = CHR ''-'') ds"
proof -
  have "SkipSpace (concat rs @ c # ds @ rest) = Some (c # ds @ rest)"
    using blanks_skipped [OF assms(1), of "c # ds @ rest"]
          sign_not_blank [OF assms(5), of "ds @ rest"]
    by (simp add: no_blank_stays del: SkipSpace.simps)
  moreover have "takeWhile is_digit (ds @ rest) = ds"
    using takeWhile_token [OF assms(3,4)] .
  ultimately show ?thesis
    using assms(5) by (simp add: Fscanf_d_def del: takeWhile.simps)
qed

lemma Fscanf_d_no_number:
  assumes "set rs \<subseteq> set space_runes" and "\<not> starts_blank rest" and "\<not> starts_number rest"
  shows "Fscanf_d (concat rs @ rest) = None"
proof (cases rest)
  case Nil
  then show ?thesis
    using blanks_skipped [OF assms(1), of "[]"] by (simp add: Fscanf_d_def)
next
  case (Cons c cs)
  show ?thesis
  proof (cases "c = CHR 0x0A")
    case True
    then show ?thesis
      using blanks_skipped [OF assms(1), of rest] Cons by (simp add: Fscanf_d_def)
  next
    case False
    then have skip: "SkipSpace (concat rs @ rest) = Some (c # cs)"
      using blanks_skipped [OF assms(1), of rest] assms(2) Cons
      by (simp add: no_blank_stays del: SkipSpace.simps)
    have nd: "\<not> is_digit c" using assms(3) Cons by (simp add: starts_number_def)
    show ?thesis
    proof (cases "c = CHR ''+'' \<or> c = CHR ''-''")
      case True
      then have "\<not> starts_digit cs" using assms(3) Cons by (auto simp: starts_number_def)
      then have "takeWhile is_digit cs = []"
        by (cases cs) (auto simp: starts_digit_def)
      then show ?thesis using True skip by (auto simp: Fscanf_d_def ParseInt_def)
    next
      case False
      then show ?thesis using nd skip by (simp add: Fscanf_d_def ParseInt_def)
    qed
  qed
qed

lemma decimal_digits10: "decimal (digits10 n) = int n"
  using foldl_positional [of 0 "digits10 n"] by (simp add: foldl_digits10)

lemma Fscanf_d_record:
  assumes "set rs \<subseteq> set space_runes" and "\<not> starts_digit rest"
  shows "Fscanf_d (concat rs @ Fprintf_d v @ rest) = Some v"
proof (cases "sint v < 0")
  case True
  have "- (2 ^ 63) \<le> sint v" using sint_ge [of v] by simp
  then have "ParseInt True (digits10 (nat (- sint v))) = Some v"
    using True
    by (simp add: ParseInt_digits digits10_nonempty digits10_all_digits decimal_digits10)
  then show ?thesis
    using True Fscanf_d_signed [OF assms(1) digits10_nonempty digits10_all_digits assms(2),
                                of "CHR ''-''" "nat (- sint v)"]
    by (simp add: Fprintf_d_def)
next
  case False
  have "sint v < 2 ^ 63" using sint_lt [of v] by simp
  then have "ParseInt False (digits10 (nat (sint v))) = Some v"
    using False
    by (simp add: ParseInt_digits digits10_nonempty digits10_all_digits decimal_digits10)
  then show ?thesis
    using False Fscanf_d_unsigned [OF assms(1) digits10_nonempty digits10_all_digits assms(2),
                                   of "nat (sint v)"]
    by (simp add: Fprintf_d_def)
qed

lemma Fscanf_d_Fprintf_d: "Fscanf_d (Fprintf_d v) = Some v"
  using Fscanf_d_record [of "[]" "[]" v] by (simp add: starts_digit_def)

lemma Fprintf_d_well_formed: "well_formed_record (Fprintf_d v)"
proof (cases "sint v < 0")
  case True
  then show ?thesis
    by (simp add: well_formed_record_def Fprintf_d_def digits10_nonempty digits10_all_digits)
next
  case False
  obtain c cs where ds: "digits10 (nat (sint v)) = c # cs"
    using digits10_nonempty [of "nat (sint v)"] by (cases "digits10 (nat (sint v))") auto
  then have all: "list_all is_digit (c # cs)"
    using digits10_all_digits [of "nat (sint v)"] by simp
  then have "c \<noteq> CHR ''-''"
    by (auto simp: is_digit_def)
  with all show ?thesis
    using False by (simp add: well_formed_record_def Fprintf_d_def ds)
qed

subsection \<open>Reading the stats file\<close>

lemma files_emit [simp]: "files (emit x w) = files w"
  by (simp add: emit_def)

lemma trace_emit [simp]: "trace (emit x w) = trace w @ [x]"
  by (simp add: emit_def)

text \<open>
  Every text is a run of space runes followed by a rest that starts with no space rune;
  and a rest that starts with a number is an optional sign, a non-empty run of digits, and
  a remainder that starts with no digit.
\<close>

lemma blank_prefix_split:
  "\<exists>rs rest. s = concat rs @ rest \<and> set rs \<subseteq> set space_runes \<and> \<not> starts_blank rest"
proof (induction "length s" arbitrary: s rule: less_induct)
  case less
  show ?case
  proof (cases "starts_blank s")
    case False
    then have "s = concat [] @ s \<and> set [] \<subseteq> set space_runes \<and> \<not> starts_blank s"
      by simp
    then show ?thesis by blast
  next
    case True
    then obtain r where r: "r \<in> set space_runes" "take (length r) s = r"
      unfolding starts_blank_def by blast
    have "r \<noteq> []" using r(1) by (auto simp: space_runes_def)
    with r(2) have "s \<noteq> []" by auto
    with \<open>r \<noteq> []\<close> have "length (drop (length r) s) < length s" by simp
    from less [OF this] obtain rs rest
      where tl: "drop (length r) s = concat rs @ rest" "set rs \<subseteq> set space_runes"
        "\<not> starts_blank rest"
      by blast
    have "s = r @ drop (length r) s"
      using append_take_drop_id [of "length r" s] r(2) by simp
    then have "s = concat (r # rs) @ rest" using tl(1) by simp
    moreover have "set (r # rs) \<subseteq> set space_runes" using r(1) tl(2) by simp
    ultimately show ?thesis using tl(3) by blast
  qed
qed

lemma digits_split:
  assumes "starts_digit s"
  shows "\<exists>ds rest. s = ds @ rest \<and> ds \<noteq> [] \<and> list_all is_digit ds \<and> \<not> starts_digit rest"
proof -
  let ?ds = "takeWhile is_digit s" and ?rest = "dropWhile is_digit s"
  have "?ds \<noteq> []" using assms by (cases s) (auto simp: starts_digit_def)
  moreover have "list_all is_digit ?ds"
    by (simp add: list_all_iff) (meson set_takeWhileD)
  moreover have "\<not> starts_digit ?rest"
  proof (cases ?rest)
    case Nil
    show ?thesis unfolding starts_digit_def Nil by simp
  next
    case (Cons c cs)
    then have "\<not> is_digit c" using hd_dropWhile [of is_digit s] by simp
    then show ?thesis unfolding starts_digit_def Cons by simp
  qed
  ultimately show ?thesis
    using takeWhile_dropWhile_id [of is_digit s] by metis
qed

lemma number_split:
  assumes "starts_number s"
  shows "\<exists>sg ds rest. s = sg @ ds @ rest \<and> sg \<in> {[], ''+'', ''-''} \<and> ds \<noteq> []
           \<and> list_all is_digit ds \<and> \<not> starts_digit rest"
proof -
  obtain c cs where s: "s = c # cs" using assms by (cases s) (auto simp: starts_number_def)
  show ?thesis
  proof (cases "is_digit c")
    case True
    then have "starts_digit s" by (simp add: s starts_digit_def)
    from digits_split [OF this] obtain ds rest
      where "s = [] @ ds @ rest" "ds \<noteq> []" "list_all is_digit ds" "\<not> starts_digit rest"
      by auto
    then show ?thesis by blast
  next
    case False
    then have sg: "c = CHR ''+'' \<or> c = CHR ''-''" and "starts_digit cs"
      using assms by (auto simp: s starts_number_def)
    from digits_split [OF this(2)] obtain ds rest
      where d: "cs = ds @ rest" "ds \<noteq> []" "list_all is_digit ds" "\<not> starts_digit rest"
      by auto
    have "s = [c] @ ds @ rest" using d(1) s by simp
    moreover have "[c] \<in> {[], ''+'', ''-''}" using sg by auto
    ultimately show ?thesis using d(2-4) by blast
  qed
qed

lemma stats_content_shapes:
  "\<exists>rs rest. content = concat rs @ rest \<and> set rs \<subseteq> set space_runes \<and> \<not> starts_blank rest
     \<and> (starts_number rest \<longrightarrow>
          (\<exists>sg ds rest'. rest = sg @ ds @ rest' \<and> sg \<in> {[], ''+'', ''-''} \<and> ds \<noteq> []
             \<and> list_all is_digit ds \<and> \<not> starts_digit rest'))"
  using blank_prefix_split [of content] number_split by blast

lemmas scan_eval =
  Fscanf_d_def ParseInt_def space_rune_width_def space_runes_def is_digit_def digit_val_def

text \<open>
  Claim C5, as amended. \<open>readTotalUploaded\<close> always returns (no branch of it ends the
  process), leaves every file as it was, and returns the same value when called again
  right after. It returns 0 with a warning when the stats file is missing; when, after
  the leading space runes, the content does not start with a number (it is empty, or
  starts with a newline, a sign not followed by a digit, or any other character); and
  when the number the content starts with does not fit in 64 bits. In every other case it
  returns the number the content starts with, whatever follows the digits: in particular
  a record written by the flush is read back as the value written, also when other text
  follows it.
\<close>

theorem readTotalUploaded_reads_leading_integer:
  assumes "set rs \<subseteq> set space_runes"
  shows "(files w seedStatsFile = None \<longrightarrow>
            readTotalUploaded seedStatsFile w = (0, emit (Log WarnOpenStats) w))
         \<and> (files w seedStatsFile = Some (concat rs @ rest)
              \<and> \<not> starts_blank rest \<and> \<not> starts_number rest \<longrightarrow>
            readTotalUploaded seedStatsFile w = (0, emit (Log WarnReadStats) w))
         \<and> (files w seedStatsFile = Some (concat rs @ sg @ ds @ rest)
              \<and> sg \<in> {[], ''+'', ''-''} \<and> ds \<noteq> [] \<and> list_all is_digit ds
              \<and> \<not> starts_digit rest \<longrightarrow>
            readTotalUploaded seedStatsFile w
              = (let n = (if sg = ''-'' then - decimal ds else decimal ds)
                 in if - (2 ^ 63) \<le> n \<and> n < 2 ^ 63 then (word_of_int n, w)
                    else (0, emit (Log WarnReadStats) w)))
         \<and> (files w seedStatsFile = Some (concat rs @ Fprintf_d v @ rest)
              \<and> \<not> starts_digit rest \<longrightarrow>
            readTotalUploaded seedStatsFile w = (v, w))
         \<and> files (snd (readTotalUploaded seedStatsFile w)) = files w
         \<and> fst (readTotalUploaded seedStatsFile (snd (readTotalUploaded seedStatsFile w)))
             = fst (readTotalUploaded seedStatsFile w)"
proof -
  have missing: "files w seedStatsFile = None \<longrightarrow>
      readTotalUploaded seedStatsFile w = (0, emit (Log WarnOpenStats) w)"
    by (simp add: readTotalUploaded_def)
  have none: "files w seedStatsFile = Some (concat rs @ rest)
        \<and> \<not> starts_blank rest \<and> \<not> starts_number rest \<longrightarrow>
      readTotalUploaded seedStatsFile w = (0, emit (Log WarnReadStats) w)"
    using Fscanf_d_no_number [OF assms, of rest] by (simp add: readTotalUploaded_def)
  have number: "files w seedStatsFile = Some (concat rs @ sg @ ds @ rest)
        \<and> sg \<in> {[], ''+'', ''-''} \<and> ds \<noteq> [] \<and> list_all is_digit ds
        \<and> \<not> starts_digit rest \<longrightarrow>
      readTotalUploaded seedStatsFile w
        = (let n = (if sg = ''-'' then - decimal ds else decimal ds)
           in if - (2 ^ 63) \<le> n \<and> n < 2 ^ 63 then (word_of_int n, w)
              else (0, emit (Log WarnReadStats) w))"
  proof (intro impI, elim conjE)
    assume f: "files w seedStatsFile = Some (concat rs @ sg @ ds @ rest)"
      and s: "sg \<in> {[], ''+'', ''-''}" and d: "ds \<noteq> []" "list_all is_digit ds"
      and r: "\<not> starts_digit rest"
    have "Fscanf_d (concat rs @ sg @ ds @ rest) = ParseInt (sg = ''-'') ds"
      using s Fscanf_d_unsigned [OF assms d r]
            Fscanf_d_signed [OF assms d r, of "CHR ''+''"]
            Fscanf_d_signed [OF assms d r, of "CHR ''-''"]
      by auto
    then show "readTotalUploaded seedStatsFile w
        = (let n = (if sg = ''-'' then - decimal ds else decimal ds)
           in if - (2 ^ 63) \<le> n \<and> n < 2 ^ 63 then (word_of_int n, w)
              else (0, emit (Log WarnReadStats) w))"
      using f by (simp add: readTotalUploaded_def ParseInt_digits [OF d] Let_def)
  qed
  have written: "files w seedStatsFile = Some (concat rs @ Fprintf_d v @ rest)
        \<and> \<not> starts_digit rest \<longrightarrow>
      readTotalUploaded seedStatsFile w = (v, w)"
    using Fscanf_d_record [OF assms, of rest v] by (simp add: readTotalUploaded_def)
  have same: "files (snd (readTotalUploaded seedStatsFile w)) = files w"
    by (simp add: readTotalUploaded_def emit_def split: option.splits)
  have again: "fst (readTotalUploaded seedStatsFile (snd (readTotalUploaded seedStatsFile w)))
      = fst (readTotalUploaded seedStatsFile w)"
    by (simp add: readTotalUploaded_def emit_def split: option.splits)
  from missing none number written same again show ?thesis by blast
qed

theorem readTotalUploaded_reads_leading_integer_witness:
  "readTotalUploaded ''seed_stats.txt'' \<lparr>files = Map.empty, trace = []\<rparr>
     = (0, \<lparr>files = Map.empty, trace = [Log WarnOpenStats]\<rparr>)
   \<and> readTotalUploaded ''seed_stats.txt''
        \<lparr>files = [''seed_stats.txt'' \<mapsto> ''Total Uploaded: 1.25 MB''], trace = []\<rparr>
     = (0, \<lparr>files = [''seed_stats.txt'' \<mapsto> ''Total Uploaded: 1.25 MB''],
            trace = [Log WarnReadStats]\<rparr>)
   \<and> readTotalUploaded ''seed_stats.txt''
        \<lparr>files = [''seed_stats.txt'' \<mapsto> [CHR 0xC2, CHR 0xA0, CHR 0x20] @ ''-75 bytes''],
         trace = []\<rparr>
     = (- 75, \<lparr>files = [''seed_stats.txt'' \<mapsto> [CHR 0xC2, CHR 0xA0, CHR 0x20] @ ''-75 bytes''],
               trace = []\<rparr>)
   \<and> readTotalUploaded ''seed_stats.txt''
        \<lparr>files = [''seed_stats.txt'' \<mapsto> ''9223372036854775808''], trace = []\<rparr>
     = (0, \<lparr>files = [''seed_stats.txt'' \<mapsto> ''9223372036854775808''],
            trace = [Log WarnReadStats]\<rparr>)
   \<and> fst (readTotalUploaded ''seed_stats.txt''
            \<lparr>files = [''seed_stats.txt'' \<mapsto> Fprintf_d 250 @ ''.5''], trace = []\<rparr>) = 250"
proof -
  have missing: "readTotalUploaded ''seed_stats.txt'' \<lparr>files = Map.empty, trace = []\<rparr>
      = (0, \<lparr>files = Map.empty, trace = [Log WarnOpenStats]\<rparr>)"
    using readTotalUploaded_reads_leading_integer
            [where rs = "[]" and w = "\<lparr>files = Map.empty, trace = []\<rparr>"
               and seedStatsFile = "''seed_stats.txt''"]
    by (simp add: emit_def)
  have words: "readTotalUploaded ''seed_stats.txt''
        \<lparr>files = [''seed_stats.txt'' \<mapsto> ''Total Uploaded: 1.25 MB''], trace = []\<rparr>
      = (0, \<lparr>files = [''seed_stats.txt'' \<mapsto> ''Total Uploaded: 1.25 MB''],
             trace = [Log WarnReadStats]\<rparr>)"
    using readTotalUploaded_reads_leading_integer
            [where rs = "[]" and rest = "''Total Uploaded: 1.25 MB''"
               and seedStatsFile = "''seed_stats.txt''"
               and w = "\<lparr>files = [''seed_stats.txt'' \<mapsto> ''Total Uploaded: 1.25 MB''],
                         trace = []\<rparr>"]
    by (simp add: emit_def starts_blank_def starts_number_def space_runes_def is_digit_def)
  have number: "readTotalUploaded ''seed_stats.txt''
        \<lparr>files = [''seed_stats.txt'' \<mapsto> [CHR 0xC2, CHR 0xA0, CHR 0x20] @ ''-75 bytes''],
         trace = []\<rparr>
      = (- 75, \<lparr>files = [''seed_stats.txt'' \<mapsto> [CHR 0xC2, CHR 0xA0, CHR 0x20] @ ''-75 bytes''],
                trace = []\<rparr>)"
    using readTotalUploaded_reads_leading_integer
            [where rs = "[[CHR 0xC2, CHR 0xA0], [CHR 0x20]]" and sg = "''-''" and ds = "''75''"
               and rest = "'' bytes''" and seedStatsFile = "''seed_stats.txt''"
               and w = "\<lparr>files = [''seed_stats.txt''
                                    \<mapsto> [CHR 0xC2, CHR 0xA0, CHR 0x20] @ ''-75 bytes''],
                         trace = []\<rparr>"]
    by (simp add: space_runes_def starts_digit_def is_digit_def decimal_def digit_val_def)
  have range: "readTotalUploaded ''seed_stats.txt''
        \<lparr>files = [''seed_stats.txt'' \<mapsto> ''9223372036854775808''], trace = []\<rparr>
      = (0, \<lparr>files = [''seed_stats.txt'' \<mapsto> ''9223372036854775808''],
             trace = [Log WarnReadStats]\<rparr>)"
    using readTotalUploaded_reads_leading_integer
            [where rs = "[]" and sg = "[]" and ds = "''9223372036854775808''"
               and rest = "[]" and seedStatsFile = "''seed_stats.txt''"
               and w = "\<lparr>files = [''seed_stats.txt'' \<mapsto> ''9223372036854775808''],
                         trace = []\<rparr>"]
    by (simp add: emit_def starts_digit_def is_digit_def decimal_def digit_val_def)
  have written: "fst (readTotalUploaded ''seed_stats.txt''
        \<lparr>files = [''seed_stats.txt'' \<mapsto> Fprintf_d 250 @ ''.5''], trace = []\<rparr>) = 250"
    using readTotalUploaded_reads_leading_integer
            [where rs = "[]" and v = 250 and rest = "''.5''"
               and seedStatsFile = "''seed_stats.txt''"
               and w = "\<lparr>files = [''seed_stats.txt'' \<mapsto> Fprintf_d 250 @ ''.5''],
                         trace = []\<rparr>"]
    by (simp add: starts_digit_def is_digit_def)
  from missing words number range written show ?thesis by blast
qed

text \<open>
  Claim C5, as stated, fails on a malformed file that starts with digits: the text
  \<^verbatim>\<open>12abc\<close> is not a record the flush can have written, and reading it returns 12, not
  0; the text \<^verbatim>\<open>1_000\<close> is read as 1.
\<close>

theorem malformed_stats_file_read_as_leading_digits:
  "\<not> well_formed_record ''12abc''
   \<and> readTotalUploaded ''seed_stats.txt''
        \<lparr>files = [''seed_stats.txt'' \<mapsto> ''12abc''], trace = []\<rparr>
     = (12, \<lparr>files = [''seed_stats.txt'' \<mapsto> ''12abc''], trace = []\<rparr>)
   \<and> \<not> well_formed_record ''1_000''
   \<and> fst (readTotalUploaded ''seed_stats.txt''
            \<lparr>files = [''seed_stats.txt'' \<mapsto> ''1_000''], trace = []\<rparr>) = 1"
  by (simp add: well_formed_record_def readTotalUploaded_def scan_eval)

subsection \<open>The ledger with a per-torrent baseline (lines 378-436)\<close>

lemma range_files:
  "logCurrentTorrentStatus_range ts p s w = (p', s', w') \<Longrightarrow> files w' = files w"
  by (induction ts arbitrary: p s w) (auto simp: Let_def)

lemma seen_sum_upd:
  assumes "finite (dom p)"
  shows "seen_sum (p(k \<mapsto> u)) + (case p k of None \<Rightarrow> 0 | Some v \<Rightarrow> v) = seen_sum p + u"
proof (cases "p k")
  case None
  then have nk: "k \<notin> dom p" by auto
  define S where "S = (\<Sum>x\<in>dom p. the (p x))"
  have d: "dom (p(k \<mapsto> u)) = insert k (dom p)" by simp
  have "seen_sum (p(k \<mapsto> u)) = (\<Sum>x\<in>insert k (dom p). the ((p(k \<mapsto> u)) x))"
    by (simp only: seen_sum_def d)
  also have "\<dots> = the ((p(k \<mapsto> u)) k) + (\<Sum>x\<in>dom p. the ((p(k \<mapsto> u)) x))"
    using assms nk by (rule sum.insert)
  also have "(\<Sum>x\<in>dom p. the ((p(k \<mapsto> u)) x)) = S"
    unfolding S_def using nk by (intro sum.cong) auto
  finally have a: "seen_sum (p(k \<mapsto> u)) = u + S" by (simp only: fun_upd_same option.sel)
  have b: "seen_sum p = S" by (simp only: seen_sum_def S_def)
  show ?thesis by (simp only: a b None option.case) simp
next
  case (Some v)
  then have k: "k \<in> dom p" by auto
  have d: "dom (p(k \<mapsto> u)) = dom p" using k by auto
  define R where "R = (\<Sum>x\<in>dom p - {k}. the (p x))"
  have "seen_sum (p(k \<mapsto> u)) = (\<Sum>x\<in>dom p. the ((p(k \<mapsto> u)) x))"
    by (simp only: seen_sum_def d)
  also have "\<dots> = the ((p(k \<mapsto> u)) k) + (\<Sum>x\<in>dom p - {k}. the ((p(k \<mapsto> u)) x))"
    using assms k by (rule sum.remove)
  also have "(\<Sum>x\<in>dom p - {k}. the ((p(k \<mapsto> u)) x)) = R"
    unfolding R_def by (intro sum.cong) auto
  finally have a: "seen_sum (p(k \<mapsto> u)) = u + R" by (simp only: fun_upd_same option.sel)
  have "seen_sum p = the (p k) + R"
    unfolding seen_sum_def R_def using assms k by (rule sum.remove)
  then have b: "seen_sum p = v + R" using Some by simp
  show ?thesis by (simp only: a b Some option.case) (simp add: ac_simps)
qed

lemma range_invariant:
  assumes "finite (dom p)" "logCurrentTorrentStatus_range ts p s w = (p', s', w')"
  shows "finite (dom p') \<and> s' + seen_sum p = s + seen_sum p'"
  using assms
proof (induction ts arbitrary: p s w)
  case Nil
  then show ?case by simp
next
  case (Cons t ts)
  let ?k = "HexString (InfoHash t)"
  let ?u = "BytesWrittenData t"
  let ?pv = "case p ?k of None \<Rightarrow> 0 | Some v \<Rightarrow> v"
  from Cons.prems(2) have run:
    "logCurrentTorrentStatus_range ts (p(?k \<mapsto> ?u)) (s + (?u - ?pv))
       (emit (Log (TorrentStatus (Name t) (PeerConns t) ?u)) w) = (p', s', w')"
    by (simp add: Let_def)
  have fin: "finite (dom (p(?k \<mapsto> ?u)))" using Cons.prems(1) by simp
  from Cons.IH [OF fin run]
  have ih: "finite (dom p')" "s' + seen_sum (p(?k \<mapsto> ?u)) = s + (?u - ?pv) + seen_sum p'"
    by blast+
  define A where "A = seen_sum (p(?k \<mapsto> ?u))"
  define pv where "pv = ?pv"
  have e1: "s' + A = s + (?u - pv) + seen_sum p'"
    using ih(2) by (simp only: A_def pv_def)
  have e2: "A + pv = seen_sum p + ?u"
    using seen_sum_upd [OF Cons.prems(1), of ?k ?u] by (simp only: A_def pv_def)
  have "s' + seen_sum p + ?u = s' + A + pv"
    using e2 by (simp add: add.assoc)
  also have "\<dots> = s + seen_sum p' + ?u"
    using e1 by simp
  finally have "s' + seen_sum p = s + seen_sum p'"
    by simp
  with ih(1) show ?case by simp
qed


lemma range_other:
  "logCurrentTorrentStatus_range ts p s w = (p', s', w') \<Longrightarrow> k \<notin> set (keys_of ts) \<Longrightarrow> p' k = p k"
  by (induction ts arbitrary: p s w) (auto simp: Let_def)

lemma range_dom:
  "logCurrentTorrentStatus_range ts p s w = (p', s', w') \<Longrightarrow> dom p' = dom p \<union> set (keys_of ts)"
  by (induction ts arbitrary: p s w) (auto simp: Let_def)

lemma range_lookup:
  "logCurrentTorrentStatus_range ts p s w = (p', s', w') \<Longrightarrow> distinct (keys_of ts) \<Longrightarrow>
   t \<in> set ts \<Longrightarrow> p' (HexString (InfoHash t)) = Some (BytesWrittenData t)"
proof (induction ts arbitrary: p s w)
  case Nil
  then show ?case by simp
next
  case (Cons a ts)
  let ?k = "HexString (InfoHash a)"
  let ?u = "BytesWrittenData a"
  from Cons.prems(1) obtain s1 w1 where run:
    "logCurrentTorrentStatus_range ts (p(?k \<mapsto> ?u)) s1 w1 = (p', s', w')"
    by (simp add: Let_def)
  show ?case
  proof (cases "t \<in> set ts")
    case True
    with Cons.IH [OF run] Cons.prems(2) show ?thesis by simp
  next
    case False
    with Cons.prems(3) have ta: "t = a" by simp
    from Cons.prems(2) have "?k \<notin> set (keys_of ts)" by simp
    from range_other [OF run this] show ?thesis using ta by simp
  qed
qed

lemma range_seen_sum:
  assumes run: "logCurrentTorrentStatus_range ts p s w = (p', s', w')"
    and dist: "distinct (keys_of ts)"
    and cover: "dom p \<subseteq> set (keys_of ts)"
  shows "seen_sum p' = sum_list (map BytesWrittenData ts)"
proof -
  have d: "dom p' = set (keys_of ts)"
    using range_dom [OF run] cover by auto
  have "seen_sum p' = (\<Sum>k\<in>set (keys_of ts). the (p' k))"
    by (simp add: seen_sum_def d)
  also have "\<dots> = sum_list (map (\<lambda>k. the (p' k)) (keys_of ts))"
    by (rule sum_list_distinct_conv_sum_set [OF dist, symmetric])
  also have "\<dots> = sum_list (map (\<lambda>t. the (p' (HexString (InfoHash t)))) ts)"
    by (simp add: comp_def)
  also have "\<dots> = sum_list (map BytesWrittenData ts)"
    using range_lookup [OF run dist] by (intro arg_cong [where f = sum_list] map_cong) auto
  finally show ?thesis .
qed

lemma tick_inv:
  assumes "ledger_inv T l" "logCurrentTorrentStatus cl f fault l w = (l', w')"
  shows "ledger_inv T l'"
proof -
  obtain p' s' w1 where run:
    "logCurrentTorrentStatus_range (Torrents cl) (previousUploads l) 0 w = (p', s', w1)"
    by (cases "logCurrentTorrentStatus_range (Torrents cl) (previousUploads l) 0 w") auto
  from assms(1) have fin: "finite (dom (previousUploads l))" by (simp add: ledger_inv_def)
  from range_invariant [OF fin run]
  have "finite (dom p')" "s' + seen_sum (previousUploads l) = seen_sum p'" by auto
  moreover from assms(2) run
  have "l' = \<lparr>totalUploaded = totalUploaded l + s', previousUploads = p'\<rparr>"
    by (simp add: logCurrentTorrentStatus_def Let_def)
  ultimately show ?thesis using assms(1) by (simp add: ledger_inv_def algebra_simps)
qed

lemma tick_dom:
  assumes "logCurrentTorrentStatus cl f fault l w = (l', w')"
  shows "dom (previousUploads l') = dom (previousUploads l) \<union> set (keys_of (Torrents cl))"
proof -
  obtain p' s' w1 where run:
    "logCurrentTorrentStatus_range (Torrents cl) (previousUploads l) 0 w = (p', s', w1)"
    by (cases "logCurrentTorrentStatus_range (Torrents cl) (previousUploads l) 0 w") auto
  from assms run have "previousUploads l' = p'"
    by (auto simp: logCurrentTorrentStatus_def Let_def)
  with range_dom [OF run] show ?thesis by simp
qed

lemma tick_total:
  assumes inv: "ledger_inv T l"
    and run: "logCurrentTorrentStatus cl f fault l w = (l', w')"
    and dist: "distinct (keys_of (Torrents cl))"
    and cover: "dom (previousUploads l) \<subseteq> set (keys_of (Torrents cl))"
  shows "totalUploaded l' = T + sum_list (map BytesWrittenData (Torrents cl))"
proof -
  obtain p' s' w1 where r:
    "logCurrentTorrentStatus_range (Torrents cl) (previousUploads l) 0 w = (p', s', w1)"
    by (cases "logCurrentTorrentStatus_range (Torrents cl) (previousUploads l) 0 w") auto
  from run r have p: "previousUploads l' = p'"
    by (auto simp: logCurrentTorrentStatus_def Let_def)
  from tick_inv [OF inv run] have "totalUploaded l' = T + seen_sum p'"
    by (simp add: ledger_inv_def p)
  with range_seen_sum [OF r dist cover] show ?thesis by simp
qed

lemma tick_file:
  assumes "logCurrentTorrentStatus cl f NoFault l w = (l', w')"
  shows "files w' f = Some (Fprintf_d (totalUploaded l'))"
  using assms
  by (auto simp: logCurrentTorrentStatus_def write_stats_def Let_def split: prod.splits)

lemma for_append:
  "CtxDone \<notin> set es \<Longrightarrow>
   logPeriodicTorrentStatus_for (es @ es') f l w =
     (case logPeriodicTorrentStatus_for es f l w of
        (pc, l1, w1) \<Rightarrow> logPeriodicTorrentStatus_for es' f l1 w1)"
  by (induction es f l w rule: logPeriodicTorrentStatus_for.induct)
     (auto split: prod.splits)

lemma for_inv:
  "ledger_inv T l \<Longrightarrow> logPeriodicTorrentStatus_for es f l w = (pc, l', w') \<Longrightarrow> ledger_inv T l'"
proof (induction es f l w rule: logPeriodicTorrentStatus_for.induct)
  case (4 cl fault es f l w)
  obtain l1 w1 where t: "logCurrentTorrentStatus cl f fault l w = (l1, w1)"
    by (cases "logCurrentTorrentStatus cl f fault l w") auto
  from tick_inv [OF "4.prems"(1) t] have i1: "ledger_inv T l1" .
  from "4.prems"(2) t have "logPeriodicTorrentStatus_for es f l1 w1 = (pc, l', w')" by simp
  from "4.IH" [OF t [symmetric] i1 this] show ?case .
qed auto

lemma for_dom:
  "logPeriodicTorrentStatus_for es f l w = (pc, l', w') \<Longrightarrow>
   dom (previousUploads l') \<subseteq> dom (previousUploads l) \<union> tick_keys es"
proof (induction es f l w rule: logPeriodicTorrentStatus_for.induct)
  case (4 cl fault es f l w)
  obtain l1 w1 where t: "logCurrentTorrentStatus cl f fault l w = (l1, w1)"
    by (cases "logCurrentTorrentStatus cl f fault l w") auto
  from "4.prems" t have "logPeriodicTorrentStatus_for es f l1 w1 = (pc, l', w')" by simp
  from "4.IH" [OF t [symmetric] this]
  have "dom (previousUploads l') \<subseteq> dom (previousUploads l1) \<union> tick_keys es" .
  with tick_dom [OF t] show ?case by auto
qed auto

lemma below_sixteen:
  "n < 16 \<Longrightarrow> n \<in> {0, 1, 2, 3, 4, 5, 6, 7, 8, 9, 10, 11, 12, 13, 14, 15 :: nat}"
  by simp arith

lemma hex_val_hex_char: "n < 16 \<Longrightarrow> hex_val (hex_char n) = n"
  by (drule below_sixteen) (auto simp: hex_val_def hex_char_def is_digit_def)

lemma hex_char_inj: "n < 16 \<Longrightarrow> m < 16 \<Longrightarrow> hex_char n = hex_char m \<Longrightarrow> n = m"
  by (metis hex_val_hex_char)

lemma HexString_Cons:
  "HexString (b # bs) = hex_char (unat b div 16) # hex_char (unat b mod 16) # HexString bs"
  by (simp add: HexString_def)

lemma byte_from_nibbles:
  fixes b c :: "8 word"
  assumes "hex_char (unat b div 16) = hex_char (unat c div 16)"
    and "hex_char (unat b mod 16) = hex_char (unat c mod 16)"
  shows "b = c"
proof -
  have bb: "unat b < 256" "unat c < 256"
    using unsigned_less [of b, where 'a = nat] unsigned_less [of c, where 'a = nat] by simp_all
  then have "unat b div 16 < 16" "unat c div 16 < 16" by simp_all
  with assms(1) have d: "unat b div 16 = unat c div 16" by (auto intro: hex_char_inj)
  have "unat b mod 16 < 16" "unat c mod 16 < 16" by simp_all
  with assms(2) have m: "unat b mod 16 = unat c mod 16" by (auto intro: hex_char_inj)
  have "unat b = 16 * (unat b div 16) + unat b mod 16" by simp
  also have "\<dots> = 16 * (unat c div 16) + unat c mod 16" by (simp only: d m)
  also have "\<dots> = unat c" by simp
  finally show ?thesis by (simp add: word_unat_eq_iff)
qed

lemma HexString_inj: "HexString bs = HexString cs \<Longrightarrow> bs = cs"
proof (induction bs arbitrary: cs)
  case Nil
  then show ?case by (cases cs) (simp_all add: HexString_def)
next
  case (Cons b bs)
  then obtain c cs' where cs: "cs = c # cs'"
    by (cases cs) (simp_all add: HexString_def)
  from Cons.prems cs have "b = c" "HexString bs = HexString cs'"
    by (auto simp: HexString_Cons intro: byte_from_nibbles)
  with Cons.IH cs show ?case by simp
qed

lemma distinct_keys:
  assumes "distinct (map InfoHash ts)"
  shows "distinct (keys_of ts)"
proof -
  have "inj_on HexString (set (map InfoHash ts))"
    by (auto simp: inj_on_def dest: HexString_inj)
  with assms have "distinct (map HexString (map InfoHash ts))"
    by (simp only: distinct_map)
  then show ?thesis by (simp add: comp_def)
qed

text \<open>
  The flush of lines 395-436 over any series of ticks. The total in memory is always the
  total read at start plus the counter last observed for every job seen so far. Hence,
  at a tick whose write succeeds, when the jobs of the engine have distinct info-hashes
  and include every job seen at an earlier tick, the stats file holds exactly the total
  read at start plus the sum of the session counters at that tick, and reading it back
  returns that value.
\<close>

lemma delta_flush_persists_baseline_plus_session:
  assumes nodone: "CtxDone \<notin> set es"
    and cover: "tick_keys es \<subseteq> set (keys_of (Torrents cl))"
    and hashes: "distinct (map InfoHash (Torrents cl))"
    and run: "logPeriodicTorrentStatus (es @ [Tick cl NoFault]) f T w = (pc, l, w')"
  shows "totalUploaded l = T + sum_list (map BytesWrittenData (Torrents cl))
         \<and> files w' f = Some (Fprintf_d (T + sum_list (map BytesWrittenData (Torrents cl))))
         \<and> fst (readTotalUploaded f w') = T + sum_list (map BytesWrittenData (Torrents cl))"
proof -
  let ?l0 = "\<lparr>totalUploaded = T, previousUploads = Map.empty\<rparr>"
  have dist: "distinct (keys_of (Torrents cl))" by (rule distinct_keys [OF hashes])
  obtain pc1 l1 w1 where pre: "logPeriodicTorrentStatus_for es f ?l0 w = (pc1, l1, w1)"
    by (cases "logPeriodicTorrentStatus_for es f ?l0 w") auto
  obtain l2 w2 where last: "logCurrentTorrentStatus cl f NoFault l1 w1 = (l2, w2)"
    by (cases "logCurrentTorrentStatus cl f NoFault l1 w1") auto
  from run have "l = l2" "w' = w2"
    using for_append [OF nodone, of "[Tick cl NoFault]" f ?l0 w] pre last
    by (simp_all add: logPeriodicTorrentStatus_def)
  have inv0: "ledger_inv T ?l0" by (simp add: ledger_inv_def seen_sum_def)
  have inv1: "ledger_inv T l1" by (rule for_inv [OF inv0 pre])
  have "dom (previousUploads l1) \<subseteq> tick_keys es" using for_dom [OF pre] by simp
  with cover have c1: "dom (previousUploads l1) \<subseteq> set (keys_of (Torrents cl))" by blast
  have tot: "totalUploaded l2 = T + sum_list (map BytesWrittenData (Torrents cl))"
    by (rule tick_total [OF inv1 last dist c1])
  have fl: "files w2 f = Some (Fprintf_d (totalUploaded l2))"
    by (rule tick_file [OF last])
  have "fst (readTotalUploaded f w2) = totalUploaded l2"
    by (simp add: readTotalUploaded_def fl Fscanf_d_Fprintf_d)
  with tot fl \<open>l = l2\<close> \<open>w' = w2\<close> show ?thesis by simp
qed

text \<open>
  Without overflow of the 64-bit total, and with counters that are not negative, the
  persisted value is the exact sum and is not below the total read at start.
\<close>

lemma sint_sum_list:
  "\<forall>u\<in>set us. 0 \<le> sint u \<Longrightarrow> sum_list (map sint us) < 2 ^ 63 \<Longrightarrow>
   sint (sum_list us :: int64) = sum_list (map sint us)"
proof (induction us)
  case Nil
  then show ?case by simp
next
  case (Cons a us)
  have nn: "0 \<le> sum_list (map sint us)"
    using Cons.prems(1) by (intro sum_list_nonneg) auto
  have a0: "0 \<le> sint a" using Cons.prems(1) by simp
  have "sum_list (map sint us) < 2 ^ 63" using Cons.prems(2) a0 by simp
  with Cons.IH Cons.prems(1) have ih: "sint (sum_list us) = sum_list (map sint us)" by simp
  have "sint (a + sum_list us) = signed_take_bit 63 (sint a + sint (sum_list us))"
    by (simp add: sint_word_ariths)
  also have "\<dots> = sint a + sum_list (map sint us)"
    unfolding ih using a0 nn Cons.prems(2)
    by (intro signed_take_bit_int_eq_self) auto
  finally show ?case by simp
qed

lemma total_never_decreases:
  assumes "0 \<le> sint T" "\<forall>u\<in>set us. 0 \<le> sint u" "sint T + sum_list (map sint us) < 2 ^ 63"
  shows "sint (T + sum_list us :: int64) = sint T + sum_list (map sint us)
         \<and> sint T \<le> sint (T + sum_list us)"
proof -
  have nn: "0 \<le> sum_list (map sint us)"
    using assms(2) by (intro sum_list_nonneg) auto
  have s: "sint (sum_list us) = sum_list (map sint us)"
    using assms by (intro sint_sum_list) auto
  have "sint (T + sum_list us) = signed_take_bit 63 (sint T + sint (sum_list us))"
    by (simp add: sint_word_ariths)
  also have "\<dots> = sint T + sum_list (map sint us)"
    unfolding s using assms(1,3) nn by (intro signed_take_bit_int_eq_self) auto
  finally show ?thesis using nn by simp
qed

subsection \<open>Writing the stats file\<close>

lemmas decimal_eval =
  Fprintf_d_def digits10_small digits10_large digit_char_def scan_eval

text \<open>
  Claim C2, as amended. The flush opens the stats file itself with \<^verbatim>\<open>os.Create\<close>, which
  truncates it, and writes the decimal text of the new total into it; no temporary file
  and no atomic replace are involved. So after a flush the stats file holds: what it held
  before, if it could not be opened; the bytes written before the error (a prefix of the
  new text, possibly empty), if the write failed; the new text otherwise. No other file
  changes, the total kept in memory is the same whatever happened to the write, a read
  after a failed open returns what a read before it returned, and a read after a
  successful write returns the new total.
\<close>

theorem flush_writes_in_place:
  "files (snd (logCurrentTorrentStatus cl f fault l w)) f =
     (case fault of
        CreateFails \<Rightarrow> files w f
      | WriteFailsAfter n \<Rightarrow>
          Some (take n (Fprintf_d (totalUploaded (fst (logCurrentTorrentStatus cl f fault l w)))))
      | NoFault \<Rightarrow> Some (Fprintf_d (totalUploaded (fst (logCurrentTorrentStatus cl f fault l w)))))
   \<and> (\<forall>p. p \<noteq> f \<longrightarrow> files (snd (logCurrentTorrentStatus cl f fault l w)) p = files w p)
   \<and> fst (logCurrentTorrentStatus cl f fault l w) = fst (logCurrentTorrentStatus cl f NoFault l w)
   \<and> (fault = CreateFails \<longrightarrow>
        fst (readTotalUploaded f (snd (logCurrentTorrentStatus cl f fault l w)))
          = fst (readTotalUploaded f w))
   \<and> (fault = NoFault \<longrightarrow>
        fst (readTotalUploaded f (snd (logCurrentTorrentStatus cl f fault l w)))
          = totalUploaded (fst (logCurrentTorrentStatus cl f fault l w)))"
proof -
  obtain p' s' w1 where run:
    "logCurrentTorrentStatus_range (Torrents cl) (previousUploads l) 0 w = (p', s', w1)"
    by (cases "logCurrentTorrentStatus_range (Torrents cl) (previousUploads l) 0 w") auto
  have fw: "files w1 = files w" by (rule range_files [OF run])
  show ?thesis
    by (cases fault)
       (simp_all add: logCurrentTorrentStatus_def write_stats_def run fw Let_def
          readTotalUploaded_def Fscanf_d_Fprintf_d split: option.splits)
qed

theorem flush_writes_in_place_witness:
  "files (snd (logCurrentTorrentStatus (one_job 150) ''downloads/seed_stats.txt'' CreateFails
                 \<lparr>totalUploaded = 100, previousUploads = Map.empty\<rparr> (stats_at ''100'')))
     ''downloads/seed_stats.txt'' = Some ''100''
   \<and> fst (readTotalUploaded ''downloads/seed_stats.txt''
            (snd (logCurrentTorrentStatus (one_job 150) ''downloads/seed_stats.txt'' CreateFails
                    \<lparr>totalUploaded = 100, previousUploads = Map.empty\<rparr> (stats_at ''100'')))) = 100
   \<and> totalUploaded (fst (logCurrentTorrentStatus (one_job 150) ''downloads/seed_stats.txt'' CreateFails
                           \<lparr>totalUploaded = 100, previousUploads = Map.empty\<rparr> (stats_at ''100''))) = 250
   \<and> fst (readTotalUploaded ''downloads/seed_stats.txt''
            (snd (logCurrentTorrentStatus (one_job 150) ''downloads/seed_stats.txt'' NoFault
                    \<lparr>totalUploaded = 100, previousUploads = Map.empty\<rparr> (stats_at ''100'')))) = 250"
  using flush_writes_in_place [of "one_job 150" "''downloads/seed_stats.txt''" CreateFails
          "\<lparr>totalUploaded = 100, previousUploads = Map.empty\<rparr>" "stats_at ''100''"]
        flush_writes_in_place [of "one_job 150" "''downloads/seed_stats.txt''" NoFault
          "\<lparr>totalUploaded = 100, previousUploads = Map.empty\<rparr>" "stats_at ''100''"]
  by (simp add: logCurrentTorrentStatus_def write_stats_def readTotalUploaded_def one_job_def
      stats_at_def Let_def decimal_eval)

text \<open>
  Claim C2, as stated, fails: the stats file holds 100, the new total is 250, and the
  write stops after one byte. The file is left holding the text 2, and the next read
  returns 2: the value persisted before is gone.
\<close>

theorem failed_write_loses_persisted_total:
  "files (snd (logCurrentTorrentStatus (one_job 150) ''downloads/seed_stats.txt'' (WriteFailsAfter 1)
                 \<lparr>totalUploaded = 100, previousUploads = Map.empty\<rparr> (stats_at ''100'')))
     ''downloads/seed_stats.txt'' = Some ''2''
   \<and> fst (readTotalUploaded ''downloads/seed_stats.txt'' (stats_at ''100'')) = 100
   \<and> fst (readTotalUploaded ''downloads/seed_stats.txt''
            (snd (logCurrentTorrentStatus (one_job 150) ''downloads/seed_stats.txt'' (WriteFailsAfter 1)
                    \<lparr>totalUploaded = 100, previousUploads = Map.empty\<rparr> (stats_at ''100'')))) = 2"
  by (simp add: logCurrentTorrentStatus_def write_stats_def readTotalUploaded_def one_job_def
      stats_at_def Let_def decimal_eval)

subsection \<open>The ledger that re-reads the file (lines 670-713)\<close>

text \<open>
  Claim C1 at a concrete input: the stats file holds 100 (the total of earlier runs) and
  one job reports a session counter of 5 at two ticks in a row. The flush of lines 686-713
  writes 105 at the first tick and 110 at the second, adding the same 5 bytes twice; the
  flush of lines 395-436 writes 105 at both.
\<close>

theorem reread_flush_counts_session_twice:
  "files (snd (logPeriodicTorrentStatus_reread [Tick (one_job 5) NoFault]
                 ''downloads/seed_stats.txt'' (stats_at ''100'')))
     ''downloads/seed_stats.txt'' = Some ''105''
   \<and> files (snd (logPeriodicTorrentStatus_reread [Tick (one_job 5) NoFault, Tick (one_job 5) NoFault]
                   ''downloads/seed_stats.txt'' (stats_at ''100'')))
       ''downloads/seed_stats.txt'' = Some ''110''
   \<and> files (snd (snd (logPeriodicTorrentStatus [Tick (one_job 5) NoFault, Tick (one_job 5) NoFault]
                   ''downloads/seed_stats.txt'' 100 (stats_at ''100''))))
       ''downloads/seed_stats.txt'' = Some ''105''"
  by (simp add: logCurrentTorrentStatus_reread_def logPeriodicTorrentStatus_def
      logCurrentTorrentStatus_def write_stats_def readTotalUploaded_def one_job_def
      stats_at_def Let_def decimal_eval)

subsection \<open>The descriptor cache (lines 313-349)\<close>

lemma fetches_emit [simp]:
  "fetches (emit x w) = fetches w @ (case x of HttpGet u \<Rightarrow> [u] | _ \<Rightarrow> [])"
  by (cases x) (simp_all add: fetches_def emit_def)

lemma loads_emit [simp]:
  "loads (emit x w) = loads w @ (case x of LoadFromFile p c \<Rightarrow> [(p, c)] | _ \<Rightarrow> [])"
  by (cases x) (simp_all add: loads_def emit_def)

lemma goroutines_emit [simp]:
  "goroutines (emit x w) = goroutines w @ (case x of Go g \<Rightarrow> [g] | _ \<Rightarrow> [])"
  by (cases x) (simp_all add: goroutines_def emit_def)

lemma fetches_files_update [simp]: "fetches (w\<lparr>files := fs\<rparr>) = fetches w"
  by (simp add: fetches_def)

lemma loads_files_update [simp]: "loads (w\<lparr>files := fs\<rparr>) = loads w"
  by (simp add: loads_def)

lemma goroutines_files_update [simp]: "goroutines (w\<lparr>files := fs\<rparr>) = goroutines w"
  by (simp add: goroutines_def)

lemma emit_files_update [simp]: "trace (w\<lparr>files := fs\<rparr>) = trace w"
  by simp

text \<open>What loading from the cache does.\<close>

lemma addTorrent_load_cached:
  assumes "files w p = Some content"
  shows "fst (addTorrent_load e p w) =
           (case metainfo_Load e content of
              None \<Rightarrow> Inl LoadFailed
            | Some meta \<Rightarrow> if AddTorrent e meta then Inr meta else Inl AddFailed)"
    and "snd (addTorrent_load e p w) = emit (LoadFromFile p content) w"
  using assms by (auto simp: addTorrent_load_def Let_def split: option.splits)

lemma addTorrent_cached:
  assumes "files w (filepath_Join dir (filepath_Base url)) = Some content"
  shows "addTorrent e url dir w =
           addTorrent_load e (filepath_Join dir (filepath_Base url))
             (emit (Stat (filepath_Join dir (filepath_Base url))) w)"
  using assms by (simp add: addTorrent_def Let_def)

lemma addTorrent_hit:
  assumes "files w (filepath_Join dir (filepath_Base url)) = Some content"
  shows "fst (addTorrent e url dir w) =
           (case metainfo_Load e content of
              None \<Rightarrow> Inl LoadFailed
            | Some meta \<Rightarrow> if AddTorrent e meta then Inr meta else Inl AddFailed)"
    and "snd (addTorrent e url dir w) =
           emit (LoadFromFile (filepath_Join dir (filepath_Base url)) content)
             (emit (Stat (filepath_Join dir (filepath_Base url))) w)"
proof -
  let ?p = "filepath_Join dir (filepath_Base url)"
  have f: "files (emit (Stat ?p) w) ?p = Some content" using assms by simp
  show "fst (addTorrent e url dir w) =
           (case metainfo_Load e content of
              None \<Rightarrow> Inl LoadFailed
            | Some meta \<Rightarrow> if AddTorrent e meta then Inr meta else Inl AddFailed)"
    by (simp only: addTorrent_cached [OF assms] addTorrent_load_cached(1) [OF f])
  show "snd (addTorrent e url dir w) = emit (LoadFromFile ?p content) (emit (Stat ?p) w)"
    by (simp only: addTorrent_cached [OF assms] addTorrent_load_cached(2) [OF f])
qed

text \<open>What a first acquisition leaves behind.\<close>

lemma addTorrent_fetches_le:
  "length (fetches (snd (addTorrent e url dir w))) \<le> length (fetches w) + 1"
  by (auto simp: addTorrent_def addTorrent_load_def Let_def
      split: option.splits write_fault.splits)

lemma addTorrent_miss_saved:
  assumes "files w (filepath_Join dir (filepath_Base url)) = None"
    and "http_Get e url = Some body"
    and "disk e (filepath_Join dir (filepath_Base url)) = NoFault"
  shows "files (snd (addTorrent e url dir w)) (filepath_Join dir (filepath_Base url)) = Some body"
    and "fetches (snd (addTorrent e url dir w)) = fetches w @ [url]"
  using assms
  by (auto simp: addTorrent_def addTorrent_load_def Let_def split: option.splits)

lemma addTorrent_first_effect:
  "trace (snd (addTorrent e url dir w)) ! length (trace w) = Stat (filepath_Join dir (filepath_Base url))"
  by (auto simp: addTorrent_def addTorrent_load_def Let_def nth_append
      split: option.splits write_fault.splits)

lemma addTorrent_fetch_iff_absent:
  "fetches (snd (addTorrent e url dir w)) \<noteq> fetches w
     \<longleftrightarrow> files w (filepath_Join dir (filepath_Base url)) = None"
  by (auto simp: addTorrent_def addTorrent_load_def Let_def
      split: option.splits write_fault.splits)

lemma Base_a: "filepath_Base ''http://a.example/debian.torrent'' = ''debian.torrent''"
  by (simp add: filepath_Base_def)

lemma Base_b: "filepath_Base ''http://b.example/debian.torrent'' = ''debian.torrent''"
  by (simp add: filepath_Base_def)

lemmas acquire_eval =
  addTorrent_def addTorrent_load_def mirrors_def empty_world_def filepath_Join_def
  Base_a Base_b Let_def

text \<open>
  Claim C6, as amended. Take two acquisitions of the same URL, one after the other, where
  the first leaves a descriptor file in the cache (it found one there, or it fetched the
  URL and could create the file). Then the second acquisition makes no request, so the
  two make at most one; the second loads exactly the content the first left in the cache;
  the first thing any acquisition does is the \<^verbatim>\<open>os.Stat\<close> of the cache path, and it
  makes a request exactly when that finds no file; and when the first acquisition fetched
  the URL and the write went through, the content the second one loads is the body of
  that fetch.
\<close>

theorem second_acquisition_reads_cache:
  assumes "files (snd (addTorrent e url dir w)) (filepath_Join dir (filepath_Base url)) = Some content"
  shows "fetches (snd (addTorrent e url dir (snd (addTorrent e url dir w))))
           = fetches (snd (addTorrent e url dir w))
         \<and> length (fetches (snd (addTorrent e url dir (snd (addTorrent e url dir w)))))
             \<le> length (fetches w) + 1
         \<and> loads (snd (addTorrent e url dir (snd (addTorrent e url dir w))))
             = loads (snd (addTorrent e url dir w)) @ [(filepath_Join dir (filepath_Base url), content)]
         \<and> trace (snd (addTorrent e url dir w)) ! length (trace w)
             = Stat (filepath_Join dir (filepath_Base url))
         \<and> (fetches (snd (addTorrent e url dir w)) \<noteq> fetches w
              \<longleftrightarrow> files w (filepath_Join dir (filepath_Base url)) = None)
         \<and> (files w (filepath_Join dir (filepath_Base url)) = None
              \<and> http_Get e url = Some body
              \<and> disk e (filepath_Join dir (filepath_Base url)) = NoFault
              \<longrightarrow> content = body)"
proof -
  let ?p = "filepath_Join dir (filepath_Base url)"
  let ?w1 = "snd (addTorrent e url dir w)"
  have second: "snd (addTorrent e url dir ?w1) = emit (LoadFromFile ?p content) (emit (Stat ?p) ?w1)"
    by (rule addTorrent_hit(2) [OF assms])
  have a: "fetches (snd (addTorrent e url dir ?w1)) = fetches ?w1"
    by (simp add: second)
  have b: "loads (snd (addTorrent e url dir ?w1)) = loads ?w1 @ [(?p, content)]"
    by (simp add: second)
  have c: "files w ?p = None \<and> http_Get e url = Some body \<and> disk e ?p = NoFault
           \<longrightarrow> content = body"
    using addTorrent_miss_saved(1) [of w dir url e body] assms by auto
  from a b c addTorrent_fetches_le [of e url dir w] addTorrent_first_effect [of e url dir w]
    addTorrent_fetch_iff_absent [of e url dir w]
  show ?thesis by simp
qed

theorem second_acquisition_reads_cache_witness:
  "fetches (snd (addTorrent mirrors ''http://a.example/debian.torrent'' ''dl''
             (snd (addTorrent mirrors ''http://a.example/debian.torrent'' ''dl'' empty_world))))
     = [''http://a.example/debian.torrent'']
   \<and> loads (snd (addTorrent mirrors ''http://a.example/debian.torrent'' ''dl''
               (snd (addTorrent mirrors ''http://a.example/debian.torrent'' ''dl'' empty_world))))
     = [(''dl/debian.torrent'', ''d4:infod6:lengthi1eee''),
        (''dl/debian.torrent'', ''d4:infod6:lengthi1eee'')]"
proof -
  have first:
    "files (snd (addTorrent mirrors ''http://a.example/debian.torrent'' ''dl'' empty_world))
       (filepath_Join ''dl'' (filepath_Base ''http://a.example/debian.torrent''))
     = Some ''d4:infod6:lengthi1eee''"
    by (simp add: acquire_eval)
  have f1: "fetches (snd (addTorrent mirrors ''http://a.example/debian.torrent'' ''dl'' empty_world))
            = [''http://a.example/debian.torrent'']"
    by (simp add: acquire_eval fetches_def)
  have l1: "loads (snd (addTorrent mirrors ''http://a.example/debian.torrent'' ''dl'' empty_world))
            = [(''dl/debian.torrent'', ''d4:infod6:lengthi1eee'')]"
    by (simp add: acquire_eval loads_def)
  from second_acquisition_reads_cache [OF first, of "''d4:infod6:lengthi1eee''"] f1 l1
  show ?thesis by (simp add: filepath_Join_def Base_a)
qed

text \<open>
  Claim C6, as stated, fails when the copy into the cache stops midway: the first
  acquisition fetches the descriptor, writes its first four bytes and returns an error,
  leaving the truncated file behind. The second acquisition finds that file, makes no
  request, and loads the four bytes, which are not the content of the first fetch.
\<close>

theorem truncated_cache_file_is_served:
  "http_Get failing_disk ''http://a.example/debian.torrent'' = Some ''d4:infod6:lengthi1eee''
   \<and> fst (addTorrent failing_disk ''http://a.example/debian.torrent'' ''dl'' empty_world)
       = Inl SaveFailed
   \<and> fetches (snd (addTorrent failing_disk ''http://a.example/debian.torrent'' ''dl''
               (snd (addTorrent failing_disk ''http://a.example/debian.torrent'' ''dl'' empty_world))))
       = [''http://a.example/debian.torrent'']
   \<and> loads (snd (addTorrent failing_disk ''http://a.example/debian.torrent'' ''dl''
               (snd (addTorrent failing_disk ''http://a.example/debian.torrent'' ''dl'' empty_world))))
       = [(''dl/debian.torrent'', ''d4:i'')]"
  by (simp add: acquire_eval failing_disk_def fetches_def loads_def)

text \<open>What the first version of the program does on top of the acquisition.\<close>

lemma downloadAndSeed_files:
  "files (snd (downloadAndSeed e url dir w)) = files (snd (addTorrent e url dir w))"
  by (cases "addTorrent e url dir w")
     (auto simp: downloadAndSeed_def split: sum.splits)

lemma downloadAndSeed_hit:
  assumes "files w (filepath_Join dir (filepath_Base url)) = Some content"
  shows "fst (downloadAndSeed e url dir w) =
           (case metainfo_Load e content of
              None \<Rightarrow> Inl (Acquire LoadFailed)
            | Some meta \<Rightarrow>
                if AddTorrent e meta
                then (if metadata_in_time e meta then Inr meta else Inl MetadataTimeout)
                else Inl (Acquire AddFailed))"
    and "fetches (snd (downloadAndSeed e url dir w)) = fetches w"
    and "loads (snd (downloadAndSeed e url dir w))
           = loads w @ [(filepath_Join dir (filepath_Base url), content)]"
  using addTorrent_hit [OF assms, of e]
  by (cases "addTorrent e url dir w";
      auto simp: downloadAndSeed_def split: sum.splits option.splits if_splits)+

lemma addTorrent_miss_fetches:
  assumes "files w (filepath_Join dir (filepath_Base url)) = None"
  shows "fetches (snd (addTorrent e url dir w)) = fetches w @ [url]"
  using assms
  by (auto simp: addTorrent_def addTorrent_load_def Let_def
      split: option.splits write_fault.splits)

lemma downloadAndSeed_fetches:
  "fetches (snd (downloadAndSeed e url dir w)) = fetches (snd (addTorrent e url dir w))"
  by (cases "addTorrent e url dir w")
     (auto simp: downloadAndSeed_def split: sum.splits)


lemma Base_down: "filepath_Base ''http://down.example/debian.torrent'' = ''debian.torrent''"
  by (simp add: filepath_Base_def)

text \<open>
  Claim C10, as amended. Take two URLs with the same final path segment, acquired one
  after the other into the same directory, where the first acquisition leaves a
  descriptor file in the cache (it found one there, or it fetched its URL and could
  create the file). Then the second acquisition makes no request, loads the file the
  first one left, and its outcome is what the engine makes of that content, whatever the
  second URL would have served; when the first acquisition fetched its URL and the write
  went through, that content is the body served by the first URL. The same holds for the
  first version of the program, \<open>downloadAndSeed\<close>, run on both URLs: the second run makes
  no request, loads the file the first run left, and succeeds exactly when the engine
  accepts that content and its metadata arrives in time.
\<close>

theorem same_final_segment_served_from_cache:
  assumes "filepath_Base url2 = filepath_Base url1"
    and "files (snd (addTorrent e url1 dir w)) (filepath_Join dir (filepath_Base url1)) = Some content"
  shows "fetches (snd (addTorrent e url2 dir (snd (addTorrent e url1 dir w))))
           = fetches (snd (addTorrent e url1 dir w))
         \<and> loads (snd (addTorrent e url2 dir (snd (addTorrent e url1 dir w))))
             = loads (snd (addTorrent e url1 dir w)) @ [(filepath_Join dir (filepath_Base url1), content)]
         \<and> fst (addTorrent e url2 dir (snd (addTorrent e url1 dir w)))
             = (case metainfo_Load e content of
                  None \<Rightarrow> Inl LoadFailed
                | Some meta \<Rightarrow> if AddTorrent e meta then Inr meta else Inl AddFailed)
         \<and> (files w (filepath_Join dir (filepath_Base url1)) = None
              \<and> http_Get e url1 = Some body
              \<and> disk e (filepath_Join dir (filepath_Base url1)) = NoFault
              \<longrightarrow> content = body)
         \<and> fetches (snd (downloadAndSeed e url2 dir (snd (downloadAndSeed e url1 dir w))))
             = fetches (snd (downloadAndSeed e url1 dir w))
         \<and> loads (snd (downloadAndSeed e url2 dir (snd (downloadAndSeed e url1 dir w))))
             = loads (snd (downloadAndSeed e url1 dir w))
               @ [(filepath_Join dir (filepath_Base url1), content)]
         \<and> fst (downloadAndSeed e url2 dir (snd (downloadAndSeed e url1 dir w)))
             = (case metainfo_Load e content of
                  None \<Rightarrow> Inl (Acquire LoadFailed)
                | Some meta \<Rightarrow>
                    if AddTorrent e meta
                    then (if metadata_in_time e meta then Inr meta else Inl MetadataTimeout)
                    else Inl (Acquire AddFailed))"
proof -
  let ?p = "filepath_Join dir (filepath_Base url1)"
  let ?w1 = "snd (addTorrent e url1 dir w)"
  let ?v1 = "snd (downloadAndSeed e url1 dir w)"
  have hit: "files ?w1 (filepath_Join dir (filepath_Base url2)) = Some content"
    using assms by simp
  have hit': "files ?v1 (filepath_Join dir (filepath_Base url2)) = Some content"
    using hit by (simp add: downloadAndSeed_files)
  have r: "fst (addTorrent e url2 dir ?w1) =
             (case metainfo_Load e content of
                None \<Rightarrow> Inl LoadFailed
              | Some meta \<Rightarrow> if AddTorrent e meta then Inr meta else Inl AddFailed)"
    by (rule addTorrent_hit(1) [OF hit])
  have s: "snd (addTorrent e url2 dir ?w1) = emit (LoadFromFile ?p content) (emit (Stat ?p) ?w1)"
    using addTorrent_hit(2) [OF hit] assms(1) by simp
  have c: "files w ?p = None \<and> http_Get e url1 = Some body \<and> disk e ?p = NoFault
           \<longrightarrow> content = body"
    using addTorrent_miss_saved(1) [of w dir url1 e body] assms(2) by auto
  have d: "fetches (snd (downloadAndSeed e url2 dir ?v1)) = fetches ?v1"
    by (rule downloadAndSeed_hit(2) [OF hit'])
  have l: "loads (snd (downloadAndSeed e url2 dir ?v1)) = loads ?v1 @ [(?p, content)]"
    using downloadAndSeed_hit(3) [OF hit'] assms(1) by simp
  have o: "fst (downloadAndSeed e url2 dir ?v1)
             = (case metainfo_Load e content of
                  None \<Rightarrow> Inl (Acquire LoadFailed)
                | Some meta \<Rightarrow>
                    if AddTorrent e meta
                    then (if metadata_in_time e meta then Inr meta else Inl MetadataTimeout)
                    else Inl (Acquire AddFailed))"
    by (rule downloadAndSeed_hit(1) [OF hit'])
  from r s c d l o show ?thesis by simp
qed

theorem same_final_segment_served_from_cache_witness:
  "fetches (snd (addTorrent mirrors ''http://b.example/debian.torrent'' ''dl''
             (snd (addTorrent mirrors ''http://a.example/debian.torrent'' ''dl'' empty_world))))
     = [''http://a.example/debian.torrent'']
   \<and> fst (addTorrent mirrors ''http://b.example/debian.torrent'' ''dl''
             (snd (addTorrent mirrors ''http://a.example/debian.torrent'' ''dl'' empty_world)))
     = Inr [0xDE, 0xB1]
   \<and> fst (addTorrent mirrors ''http://b.example/debian.torrent'' ''dl'' empty_world)
     = Inl LoadFailed
   \<and> fst (downloadAndSeed mirrors ''http://b.example/debian.torrent'' ''dl''
             (snd (downloadAndSeed mirrors ''http://a.example/debian.torrent'' ''dl'' empty_world)))
     = Inr [0xDE, 0xB1]
   \<and> fetches (snd (downloadAndSeed mirrors ''http://b.example/debian.torrent'' ''dl''
             (snd (downloadAndSeed mirrors ''http://a.example/debian.torrent'' ''dl'' empty_world))))
     = [''http://a.example/debian.torrent'']
   \<and> loads (snd (downloadAndSeed mirrors ''http://b.example/debian.torrent'' ''dl''
             (snd (downloadAndSeed mirrors ''http://a.example/debian.torrent'' ''dl'' empty_world))))
     = [(''dl/debian.torrent'', ''d4:infod6:lengthi1eee''),
        (''dl/debian.torrent'', ''d4:infod6:lengthi1eee'')]"
proof -
  have first:
    "files (snd (addTorrent mirrors ''http://a.example/debian.torrent'' ''dl'' empty_world))
       (filepath_Join ''dl'' (filepath_Base ''http://a.example/debian.torrent''))
     = Some ''d4:infod6:lengthi1eee''"
    by (simp add: acquire_eval)
  have same: "filepath_Base ''http://b.example/debian.torrent''
              = filepath_Base ''http://a.example/debian.torrent''"
    by (simp add: Base_a Base_b)
  have f1: "fetches (snd (addTorrent mirrors ''http://a.example/debian.torrent'' ''dl'' empty_world))
            = [''http://a.example/debian.torrent'']"
    by (simp add: acquire_eval fetches_def)
  have g1: "fetches (snd (downloadAndSeed mirrors ''http://a.example/debian.torrent'' ''dl'' empty_world))
            = [''http://a.example/debian.torrent'']"
    by (simp add: downloadAndSeed_def acquire_eval fetches_def emit_def)
  have l1: "loads (snd (downloadAndSeed mirrors ''http://a.example/debian.torrent'' ''dl'' empty_world))
            = [(''dl/debian.torrent'', ''d4:infod6:lengthi1eee'')]"
    by (simp add: downloadAndSeed_def acquire_eval loads_def emit_def)
  have alone: "fst (addTorrent mirrors ''http://b.example/debian.torrent'' ''dl'' empty_world)
               = Inl LoadFailed"
    by (simp add: acquire_eval)
  from same_final_segment_served_from_cache [OF same first, of "''d4:infod6:lengthi1eee''"]
       f1 g1 l1 alone
  show ?thesis by (simp add: mirrors_def filepath_Join_def Base_a)
qed

text \<open>
  Claim C10, as stated, fails when the first source is unreachable: its acquisition
  leaves no file in the cache, and the second job, whose URL ends in the same file name,
  fetches its own URL and is served its own descriptor.
\<close>

theorem unreachable_first_source_leaves_no_cache:
  "filepath_Base ''http://down.example/debian.torrent''
     = filepath_Base ''http://a.example/debian.torrent''
   \<and> fst (addTorrent mirrors ''http://down.example/debian.torrent'' ''dl'' empty_world)
       = Inl DownloadFailed
   \<and> fetches (snd (addTorrent mirrors ''http://a.example/debian.torrent'' ''dl''
               (snd (addTorrent mirrors ''http://down.example/debian.torrent'' ''dl'' empty_world))))
       = [''http://down.example/debian.torrent'', ''http://a.example/debian.torrent'']
   \<and> loads (snd (addTorrent mirrors ''http://a.example/debian.torrent'' ''dl''
               (snd (addTorrent mirrors ''http://down.example/debian.torrent'' ''dl'' empty_world))))
       = [(''dl/debian.torrent'', ''d4:infod6:lengthi1eee'')]
   \<and> fetches (snd (downloadAndSeed mirrors ''http://a.example/debian.torrent'' ''dl''
               (snd (downloadAndSeed mirrors ''http://down.example/debian.torrent'' ''dl'' empty_world))))
       = [''http://down.example/debian.torrent'', ''http://a.example/debian.torrent'']"
  by (simp add: downloadAndSeed_def acquire_eval Base_down fetches_def loads_def emit_def)

subsection \<open>Starting the jobs (lines 284-304)\<close>

lemma processTorrents_append:
  "processTorrents e (xs @ ys) dir w = processTorrents e ys dir (processTorrents e xs dir w)"
  by (induction xs arbitrary: w) (auto simp: Let_def split: option.splits prod.splits sum.splits)

lemma addTorrent_frame:
  "q \<noteq> filepath_Join dir (filepath_Base url) \<Longrightarrow>
   files (snd (addTorrent e url dir w)) q = files w q"
  by (auto simp: addTorrent_def addTorrent_load_def Let_def
      split: option.splits write_fault.splits)

lemma addTorrent_goroutines: "goroutines (snd (addTorrent e url dir w)) = goroutines w"
  by (auto simp: addTorrent_def addTorrent_load_def Let_def
      split: option.splits write_fault.splits)

lemma addTorrent_trace_grows:
  "\<exists>suffix. trace (snd (addTorrent e url dir w)) = trace w @ suffix"
  by (auto simp: addTorrent_def addTorrent_load_def Let_def
      split: option.splits write_fault.splits)

lemma addTorrent_local:
  assumes "files wa (filepath_Join dir (filepath_Base url)) = files wb (filepath_Join dir (filepath_Base url))"
  shows "fst (addTorrent e url dir wa) = fst (addTorrent e url dir wb)"
    and "files (snd (addTorrent e url dir wa)) (filepath_Join dir (filepath_Base url))
         = files (snd (addTorrent e url dir wb)) (filepath_Join dir (filepath_Base url))"
  using assms
  by (auto simp: addTorrent_def addTorrent_load_def Let_def
      split: option.splits write_fault.splits)

lemma processTorrents_trace_grows:
  "\<exists>suffix. trace (processTorrents e urls dir w) = trace w @ suffix"
proof (induction urls arbitrary: w)
  case Nil
  then show ?case by simp
next
  case (Cons url urls)
  show ?case
  proof (cases "strings_HasPrefix url ''magnet:?''")
    case True
    show ?thesis
    proof (cases "AddMagnet e url")
      case None
      obtain s2 where
        "trace (processTorrents e urls dir (emit (Log (ErrAddingMagnet url)) (emit (Log (AddingMagnet url)) w)))
         = trace (emit (Log (ErrAddingMagnet url)) (emit (Log (AddingMagnet url)) w)) @ s2"
        using Cons.IH by blast
      then show ?thesis using True None by (simp add: Let_def)
    next
      case (Some t)
      obtain s2 where
        "trace (processTorrents e urls dir (emit (Go (WaitForMagnetMetadata t)) (emit (Log (AddingMagnet url)) w)))
         = trace (emit (Go (WaitForMagnetMetadata t)) (emit (Log (AddingMagnet url)) w)) @ s2"
        using Cons.IH by blast
      then show ?thesis using True Some by (simp add: Let_def)
    qed
  next
    case False
    obtain r w' where a: "addTorrent e url dir w = (r, w')"
      by (cases "addTorrent e url dir w") auto
    obtain s1 where s1: "trace w' = trace w @ s1"
      using addTorrent_trace_grows [of e url dir w] a by auto
    show ?thesis
    proof (cases r)
      case (Inl err)
      obtain s2 where "trace (processTorrents e urls dir (emit (Log (ErrAddingTorrent url err)) w'))
                       = trace (emit (Log (ErrAddingTorrent url err)) w') @ s2"
        using Cons.IH by blast
      then show ?thesis using False a Inl s1 by simp
    next
      case (Inr t)
      obtain s2 where "trace (processTorrents e urls dir (emit (Go (SeedTorrent t)) w'))
                       = trace (emit (Go (SeedTorrent t)) w') @ s2"
        using Cons.IH by blast
      then show ?thesis using False a Inr s1 by simp
    qed
  qed
qed

lemma processTorrents_agree:
  assumes "agree_off P wa wb"
    and "\<forall>v\<in>set ys. strings_HasPrefix v ''magnet:?'' \<or> filepath_Join dir (filepath_Base v) \<notin> P"
  shows "agree_off P (processTorrents e ys dir wa) (processTorrents e ys dir wb)"
  using assms
proof (induction ys arbitrary: wa wb)
  case Nil
  then show ?case by simp
next
  case (Cons v ys)
  have rest: "\<forall>v\<in>set ys. strings_HasPrefix v ''magnet:?'' \<or> filepath_Join dir (filepath_Base v) \<notin> P"
    using Cons.prems(2) by simp
  show ?case
  proof (cases "strings_HasPrefix v ''magnet:?''")
    case True
    show ?thesis
    proof (cases "AddMagnet e v")
      case None
      have "agree_off P (emit (Log (ErrAddingMagnet v)) (emit (Log (AddingMagnet v)) wa))
                        (emit (Log (ErrAddingMagnet v)) (emit (Log (AddingMagnet v)) wb))"
        using Cons.prems(1) by (simp add: agree_off_def)
      from Cons.IH [OF this rest] show ?thesis using True None by (simp add: Let_def)
    next
      case (Some t)
      have "agree_off P (emit (Go (WaitForMagnetMetadata t)) (emit (Log (AddingMagnet v)) wa))
                        (emit (Go (WaitForMagnetMetadata t)) (emit (Log (AddingMagnet v)) wb))"
        using Cons.prems(1) by (simp add: agree_off_def)
      from Cons.IH [OF this rest] show ?thesis using True Some by (simp add: Let_def)
    qed
  next
    case False
    let ?p = "filepath_Join dir (filepath_Base v)"
    from Cons.prems(2) False have pv: "?p \<notin> P" by simp
    with Cons.prems(1) have same: "files wa ?p = files wb ?p" by (simp add: agree_off_def)
    obtain ra wa' where a: "addTorrent e v dir wa = (ra, wa')"
      by (cases "addTorrent e v dir wa") auto
    obtain rb wb' where b: "addTorrent e v dir wb = (rb, wb')"
      by (cases "addTorrent e v dir wb") auto
    have r: "ra = rb" using addTorrent_local(1) [OF same, of e] a b by simp
    have g: "goroutines wa' = goroutines wb'"
      using addTorrent_goroutines [of e v dir wa] addTorrent_goroutines [of e v dir wb]
        a b Cons.prems(1) by (simp add: agree_off_def)
    have f: "\<forall>q. q \<notin> P \<longrightarrow> files wa' q = files wb' q"
    proof (intro allI impI)
      fix q assume q: "q \<notin> P"
      show "files wa' q = files wb' q"
      proof (cases "q = ?p")
        case True
        then show ?thesis using addTorrent_local(2) [OF same, of e] a b by simp
      next
        case False
        then show ?thesis
          using addTorrent_frame [of q dir v e wa] addTorrent_frame [of q dir v e wb]
            a b q Cons.prems(1) by (simp add: agree_off_def)
      qed
    qed
    have ag: "agree_off P wa' wb'" using g f by (simp add: agree_off_def)
    show ?thesis
    proof (cases rb)
      case (Inl err)
      have "agree_off P (emit (Log (ErrAddingTorrent v err)) wa') (emit (Log (ErrAddingTorrent v err)) wb')"
        using ag by (simp add: agree_off_def)
      from Cons.IH [OF this rest] show ?thesis using False a b r Inl by simp
    next
      case (Inr t)
      have "agree_off P (emit (Go (SeedTorrent t)) wa') (emit (Go (SeedTorrent t)) wb')"
        using ag by (simp add: agree_off_def)
      from Cons.IH [OF this rest] show ?thesis using False a b r Inr by simp
    qed
  qed
qed

text \<open>One failing job: what it leaves behind.\<close>

lemma failing_job_step:
  assumes "job_fails e u dir w"
  shows "agree_off (if strings_HasPrefix u ''magnet:?'' then {}
                    else {filepath_Join dir (filepath_Base u)})
           (processTorrents e [u] dir w) w"
    and "(\<exists>err. Log (ErrAddingTorrent u err) \<in> set (trace (processTorrents e [u] dir w)))
         \<or> Log (ErrAddingMagnet u) \<in> set (trace (processTorrents e [u] dir w))"
proof -
  show "agree_off (if strings_HasPrefix u ''magnet:?'' then {}
                    else {filepath_Join dir (filepath_Base u)})
           (processTorrents e [u] dir w) w"
  proof (cases "strings_HasPrefix u ''magnet:?''")
    case True
    with assms show ?thesis by (simp add: job_fails_def agree_off_def Let_def)
  next
    case False
    obtain r w' where a: "addTorrent e u dir w = (r, w')"
      by (cases "addTorrent e u dir w") auto
    with assms False obtain err where r: "r = Inl err"
      by (cases r) (auto simp: job_fails_def)
    have "goroutines w' = goroutines w"
      using addTorrent_goroutines [of e u dir w] a by simp
    moreover have "\<forall>q. q \<noteq> filepath_Join dir (filepath_Base u) \<longrightarrow> files w' q = files w q"
      using addTorrent_frame [of _ dir u e w] a by simp
    ultimately show ?thesis using False a r by (simp add: agree_off_def)
  qed
  show "(\<exists>err. Log (ErrAddingTorrent u err) \<in> set (trace (processTorrents e [u] dir w)))
         \<or> Log (ErrAddingMagnet u) \<in> set (trace (processTorrents e [u] dir w))"
  proof (cases "strings_HasPrefix u ''magnet:?''")
    case True
    with assms show ?thesis by (simp add: job_fails_def Let_def)
  next
    case False
    obtain r w' where a: "addTorrent e u dir w = (r, w')"
      by (cases "addTorrent e u dir w") auto
    with assms False obtain err where r: "r = Inl err"
      by (cases r) (auto simp: job_fails_def)
    show ?thesis using False a r by auto
  qed
qed

lemma Base_gone: "filepath_Base ''http://c.example/gone.torrent'' = ''gone.torrent''"
  by (simp add: filepath_Base_def)

lemmas process_eval = acquire_eval Base_gone strings_HasPrefix_def goroutines_def emit_def

text \<open>
  Claim C4, as amended. Let a job fail at its turn: the engine rejects its magnet link, or
  \<open>addTorrent\<close> returns an error (failed request, cache file not created or not written in
  full, malformed descriptor, descriptor rejected by the engine). Let no later URL job
  have the cache path of the failed job. Then the failure is logged, and the goroutines
  started by the whole run are exactly those started by the run without the failed job:
  no job is started for it, and every other job is acquired and started as if the failed
  one had not been configured. The loop has no other way out: it ends when the list does.
\<close>

theorem failing_job_is_isolated:
  assumes "job_fails e u dir (processTorrents e xs dir w)"
    and "\<forall>v\<in>set ys. strings_HasPrefix u ''magnet:?'' \<or> strings_HasPrefix v ''magnet:?''
            \<or> filepath_Join dir (filepath_Base v) \<noteq> filepath_Join dir (filepath_Base u)"
  shows "goroutines (processTorrents e (xs @ u # ys) dir w)
           = goroutines (processTorrents e (xs @ ys) dir w)
         \<and> ((\<exists>err. Log (ErrAddingTorrent u err) \<in> set (trace (processTorrents e (xs @ u # ys) dir w)))
            \<or> Log (ErrAddingMagnet u) \<in> set (trace (processTorrents e (xs @ u # ys) dir w)))"
proof -
  let ?w1 = "processTorrents e xs dir w"
  let ?wu = "processTorrents e [u] dir ?w1"
  let ?P = "if strings_HasPrefix u ''magnet:?'' then {} else {filepath_Join dir (filepath_Base u)}"
  have split: "processTorrents e (xs @ u # ys) dir w = processTorrents e ys dir ?wu"
    using processTorrents_append [of e xs "[u] @ ys" dir w]
      processTorrents_append [of e "[u]" ys dir ?w1] by simp
  have without: "processTorrents e (xs @ ys) dir w = processTorrents e ys dir ?w1"
    by (rule processTorrents_append)
  have ag: "agree_off ?P ?wu ?w1" by (rule failing_job_step(1) [OF assms(1)])
  have cond: "\<forall>v\<in>set ys. strings_HasPrefix v ''magnet:?'' \<or> filepath_Join dir (filepath_Base v) \<notin> ?P"
    using assms(2) by auto
  have "agree_off ?P (processTorrents e ys dir ?wu) (processTorrents e ys dir ?w1)"
    by (rule processTorrents_agree [OF ag cond])
  then have g: "goroutines (processTorrents e (xs @ u # ys) dir w)
                = goroutines (processTorrents e (xs @ ys) dir w)"
    by (simp add: split without agree_off_def)
  obtain suffix where grow: "trace (processTorrents e ys dir ?wu) = trace ?wu @ suffix"
    using processTorrents_trace_grows by blast
  have "(\<exists>err. Log (ErrAddingTorrent u err) \<in> set (trace ?wu))
        \<or> Log (ErrAddingMagnet u) \<in> set (trace ?wu)"
    by (rule failing_job_step(2) [OF assms(1)])
  then have l: "(\<exists>err. Log (ErrAddingTorrent u err) \<in> set (trace (processTorrents e (xs @ u # ys) dir w)))
            \<or> Log (ErrAddingMagnet u) \<in> set (trace (processTorrents e (xs @ u # ys) dir w))"
    unfolding split grow by auto
  from g l show ?thesis by simp
qed

theorem failing_job_is_isolated_witness:
  "job_fails mirrors ''http://c.example/gone.torrent'' ''dl'' (processTorrents mirrors [] ''dl'' empty_world)
   \<and> goroutines (processTorrents mirrors
        ([] @ ''http://c.example/gone.torrent'' # [''http://a.example/debian.torrent'']) ''dl'' empty_world)
     = [SeedTorrent [0xDE, 0xB1]]"
proof -
  have fails: "job_fails mirrors ''http://c.example/gone.torrent'' ''dl''
                 (processTorrents mirrors [] ''dl'' empty_world)"
    by (simp add: job_fails_def process_eval)
  have keys: "\<forall>v\<in>set [''http://a.example/debian.torrent''].
                strings_HasPrefix ''http://c.example/gone.torrent'' ''magnet:?''
                \<or> strings_HasPrefix v ''magnet:?''
                \<or> filepath_Join ''dl'' (filepath_Base v)
                    \<noteq> filepath_Join ''dl'' (filepath_Base ''http://c.example/gone.torrent'')"
    by (simp add: process_eval)
  have alone: "goroutines (processTorrents mirrors ([] @ [''http://a.example/debian.torrent'']) ''dl'' empty_world)
               = [SeedTorrent [0xDE, 0xB1]]"
    by (simp add: process_eval)
  from failing_job_is_isolated [OF fails keys] alone fails show ?thesis by simp
qed

text \<open>
  Claim C4, as stated, fails for two URLs with the same final path segment. The first
  mirror answers with an error page, which is saved under the shared cache name and does
  not load; the second job then finds that file, makes no request and fails too, although
  its own URL serves a good descriptor and the job succeeds when configured alone.
\<close>

theorem failure_spreads_through_shared_cache_name:
  "job_fails mirrors ''http://b.example/debian.torrent'' ''dl'' empty_world
   \<and> goroutines (processTorrents mirrors [''http://a.example/debian.torrent''] ''dl'' empty_world)
       = [SeedTorrent [0xDE, 0xB1]]
   \<and> goroutines (processTorrents mirrors
        [''http://b.example/debian.torrent'', ''http://a.example/debian.torrent''] ''dl'' empty_world)
       = []"
  by (simp add: job_fails_def process_eval)

text \<open>
  The loop of lines 580-602 waits for the metadata of a magnet link itself. A magnet link
  whose metadata never arrives keeps it from ever reaching the next source; the loop of
  lines 284-304 starts a goroutine for the wait and goes on.
\<close>

lemma inline_wait_blocks_later_jobs:
  "fst (processTorrents_inline mirrors
          [''magnet:?xt=urn:btih:c0ffee'', ''http://a.example/debian.torrent''] ''dl'' empty_world)
     = Running
   \<and> goroutines (snd (processTorrents_inline mirrors
          [''magnet:?xt=urn:btih:c0ffee'', ''http://a.example/debian.torrent''] ''dl'' empty_world))
     = []
   \<and> goroutines (processTorrents mirrors
          [''magnet:?xt=urn:btih:c0ffee'', ''http://a.example/debian.torrent''] ''dl'' empty_world)
     = [WaitForMagnetMetadata [0xC0, 0xFF, 0xEE], SeedTorrent [0xDE, 0xB1]]"
  by (simp add: process_eval)

subsection \<open>The health monitor (lines 438-469)\<close>

lemma announce_trackers_trace:
  "trace (announce_trackers h trackers w) = trace w @ map (\<lambda>tracker. ModifyTrackers h [tracker]) trackers"
  by (induction trackers arbitrary: w) simp_all

lemma announce_trackers_files: "files (announce_trackers h trackers w) = files w"
  by (induction trackers arbitrary: w) simp_all

lemma announce_dht_trace:
  "trace (announce_dht h port servers w)
     = trace w @ map (\<lambda>dhtServer. DhtAnnounce dhtServer h port True) servers"
  by (induction servers arbitrary: w) simp_all

lemma announce_dht_files: "files (announce_dht h port servers w) = files w"
  by (induction servers arbitrary: w) simp_all

lemma copy20_full: "length src = 20 \<Longrightarrow> copy20 src = src"
  by (simp add: copy20_def)

lemma periodicAnnounce_range_append:
  "periodicAnnounce_range cl (xs @ ys) w
     = periodicAnnounce_range cl ys (periodicAnnounce_range cl xs w)"
  by (induction xs arbitrary: w) simp_all

lemma periodicAnnounce_range_trace:
  "trace (periodicAnnounce_range cl ts w)
     = trace w
       @ concat (map (\<lambda>t. if TotalPeers t \<le> 9
                          then Log (Reannouncing (Name t))
                               # map (\<lambda>tier. ModifyTrackers (InfoHash t) [tier]) (AnnounceList t)
                               @ map (\<lambda>dhtServer. DhtAnnounce dhtServer (copy20 (InfoHash t))
                                                     (LocalPort cl) True)
                                   (DhtServers cl)
                          else []) ts)"
  by (induction ts arbitrary: w) (simp_all add: announce_dht_trace announce_trackers_trace)

lemma periodicAnnounce_range_files: "files (periodicAnnounce_range cl ts w) = files w"
  by (induction ts arbitrary: w) (simp_all add: announce_dht_files announce_trackers_files)

lemma periodicAnnounce_append:
  "CtxDone \<notin> set es \<Longrightarrow>
   periodicAnnounce (es @ later) w = periodicAnnounce later (snd (periodicAnnounce es w))"
  by (induction es w rule: periodicAnnounce.induct) simp_all

text \<open>
  Claim C7, as amended. Take a tick of the health monitor that the loop serves (no
  cancellation came before it), with every job of the engine carrying an info-hash of 20
  bytes. The loop goes on running, no file changes, and the tick adds to the trace the
  line announcing the pass and then, job by job in the order of the engine: nothing for
  a job sampled with 10 peers or more; for a job sampled with 9 peers or fewer, its log
  line, then one \<^verbatim>\<open>ModifyTrackers\<close> call for each tier of the announce list of its
  descriptor, in order, the call carrying all the trackers of the tier, then one announce
  on each DHT server of the engine, keyed by the job's info-hash and the engine's
  listening port.
\<close>

theorem tick_reannounces_jobs_below_peer_floor:
  assumes "CtxDone \<notin> set es"
    and "list_all (\<lambda>t. length (InfoHash t) = 20) (Torrents cl)"
  shows "fst (periodicAnnounce (es @ [Tick cl fault]) w) = Running
         \<and> trace (snd (periodicAnnounce (es @ [Tick cl fault]) w))
             = trace (snd (periodicAnnounce es w))
               @ Log ReannouncingAll
               # concat (map (\<lambda>t. if TotalPeers t \<le> 9
                                  then Log (Reannouncing (Name t))
                                       # map (\<lambda>tier. ModifyTrackers (InfoHash t) [tier])
                                           (AnnounceList t)
                                       @ map (\<lambda>dhtServer. DhtAnnounce dhtServer (InfoHash t)
                                                             (LocalPort cl) True)
                                           (DhtServers cl)
                                  else [])
                           (Torrents cl))
         \<and> files (snd (periodicAnnounce (es @ [Tick cl fault]) w))
             = files (snd (periodicAnnounce es w))"
proof -
  let ?w = "snd (periodicAnnounce es w)"
  have step: "periodicAnnounce (es @ [Tick cl fault]) w
      = (Running, periodicAnnounce_range cl (Torrents cl) (emit (Log ReannouncingAll) ?w))"
    using periodicAnnounce_append [OF assms(1), of "[Tick cl fault]" w] by simp
  have same: "map (\<lambda>t. if TotalPeers t \<le> 9
                          then Log (Reannouncing (Name t))
                               # map (\<lambda>tier. ModifyTrackers (InfoHash t) [tier]) (AnnounceList t)
                               @ map (\<lambda>dhtServer. DhtAnnounce dhtServer (copy20 (InfoHash t))
                                                     (LocalPort cl) True)
                                   (DhtServers cl)
                          else []) (Torrents cl)
      = map (\<lambda>t. if TotalPeers t \<le> 9
                          then Log (Reannouncing (Name t))
                               # map (\<lambda>tier. ModifyTrackers (InfoHash t) [tier]) (AnnounceList t)
                               @ map (\<lambda>dhtServer. DhtAnnounce dhtServer (InfoHash t)
                                                     (LocalPort cl) True)
                                   (DhtServers cl)
                          else []) (Torrents cl)"
    using assms(2) by (intro map_cong refl) (simp add: list_all_iff copy20_full)
  show ?thesis
    unfolding step
    by (simp add: periodicAnnounce_range_trace periodicAnnounce_range_files same)
qed

theorem tick_reannounces_jobs_below_peer_floor_witness:
  "trace (snd (periodicAnnounce
                 [Tick (engine_of [job_with_peers 10]) NoFault,
                  Tick (engine_of [job_with_peers 10, job_with_peers 9]) NoFault]
                 empty_world))
     = [Log ReannouncingAll,
        Log ReannouncingAll,
        Log (Reannouncing ''ubuntu-24.04-live-server-amd64.iso''),
        ModifyTrackers (replicate 20 0xAB) [[''https://torrent.ubuntu.com/announce'']],
        ModifyTrackers (replicate 20 0xAB) [[''https://ipv6.torrent.ubuntu.com/announce'']],
        DhtAnnounce ''dht-udp4'' (replicate 20 0xAB) 42069 True]"
proof -
  have first: "trace (snd (periodicAnnounce [Tick (engine_of [job_with_peers 10]) NoFault]
                             empty_world)) = [Log ReannouncingAll]"
    by (simp add: engine_of_def job_with_peers_def empty_world_def)
  show ?thesis
    using tick_reannounces_jobs_below_peer_floor
            [of "[Tick (engine_of [job_with_peers 10]) NoFault]"
                "engine_of [job_with_peers 10, job_with_peers 9]" NoFault empty_world]
          first
    by (simp add: engine_of_def job_with_peers_def)
qed

text \<open>
  Claim C7, as stated, fails on a descriptor whose trackers share a tier and on an engine
  with more than one DHT server: a job with 9 peers, three trackers in one tier and two
  DHT servers gets one \<^verbatim>\<open>ModifyTrackers\<close> call, not three, and two DHT announces, not
  one.
\<close>

theorem tier_announced_once_and_every_dht_server:
  "trace (snd (periodicAnnounce [Tick (dual_stack_engine [tiered_job]) NoFault] empty_world))
     = [Log ReannouncingAll,
        Log (Reannouncing ''debian-12.9.0-amd64-DVD-1.iso''),
        ModifyTrackers (replicate 20 0xCD)
          [[''http://t1.example/announce'', ''http://t2.example/announce'',
            ''udp://t3.example:6969'']],
        DhtAnnounce ''dht-udp4'' (replicate 20 0xCD) 42069 True,
        DhtAnnounce ''dht-udp6'' (replicate 20 0xCD) 42069 True]"
  by (simp add: dual_stack_engine_def tiered_job_def empty_world_def copy20_def)

subsection \<open>Startup (lines 203-240)\<close>

text \<open>
  Claim C8. The source list is empty exactly when the flag is given as the empty string,
  or is not given while the environment variable is unset or empty. With an empty source
  list the process ends with the fatal error for missing sources, having started only the
  signal handler, made no request and changed no file. With a non-empty source list that
  fatal error does not occur, and when the download directory and the engine can be
  created the main goroutine reaches its wait for the cancellation, after starting the two
  periodic loops and running the acquisition loop over every parsed source.
\<close>

theorem startup_needs_a_source:
  "(torrentURLs cfg = [] \<longleftrightarrow>
      flag_url cfg = Some []
      \<or> (flag_url cfg = None
          \<and> (environ cfg ''TORRENT_URLS'' = None \<or> environ cfg ''TORRENT_URLS'' = Some [])))
   \<and> (torrentURLs cfg = [] \<longrightarrow>
        fst (main e cfg w) = Some NoTorrentURLs
        \<and> goroutines (snd (main e cfg w)) = goroutines w @ [SignalHandler]
        \<and> fetches (snd (main e cfg w)) = fetches w
        \<and> files (snd (main e cfg w)) = files w)
   \<and> (torrentURLs cfg \<noteq> [] \<longrightarrow> fst (main e cfg w) \<noteq> Some NoTorrentURLs)
   \<and> (torrentURLs cfg \<noteq> [] \<and> \<not> MkdirAll_fails e (downloadDir_of cfg) \<and> \<not> NewClient_fails e \<longrightarrow>
        fst (main e cfg w) = None
        \<and> snd (main e cfg w)
            = processTorrents e (parseTorrentURLs (torrentURLs cfg)) (downloadDir_of cfg)
                (emit (Go PeriodicAnnounce)
                   (emit (Go (LogPeriodicTorrentStatus
                                (filepath_Join (downloadDir_of cfg) ''seed_stats.txt'')
                                (fst (readTotalUploaded
                                        (filepath_Join (downloadDir_of cfg) ''seed_stats.txt'')
                                        (emit (Go SignalHandler) w)))))
                      (snd (readTotalUploaded
                              (filepath_Join (downloadDir_of cfg) ''seed_stats.txt'')
                              (emit (Go SignalHandler) w))))))"
proof -
  have a: "torrentURLs cfg = [] \<longleftrightarrow>
      flag_url cfg = Some []
      \<or> (flag_url cfg = None
          \<and> (environ cfg ''TORRENT_URLS'' = None \<or> environ cfg ''TORRENT_URLS'' = Some []))"
    by (auto simp: torrentURLs_def getEnv_def split: option.splits)
  have b: "torrentURLs cfg = [] \<longrightarrow>
        fst (main e cfg w) = Some NoTorrentURLs
        \<and> goroutines (snd (main e cfg w)) = goroutines w @ [SignalHandler]
        \<and> fetches (snd (main e cfg w)) = fetches w
        \<and> files (snd (main e cfg w)) = files w"
    by (simp add: main_def Let_def)
  have c: "torrentURLs cfg \<noteq> [] \<longrightarrow> fst (main e cfg w) \<noteq> Some NoTorrentURLs"
    by (simp add: main_def Let_def split: prod.splits)
  have d: "torrentURLs cfg \<noteq> [] \<and> \<not> MkdirAll_fails e (downloadDir_of cfg) \<and> \<not> NewClient_fails e \<longrightarrow>
        fst (main e cfg w) = None
        \<and> snd (main e cfg w)
            = processTorrents e (parseTorrentURLs (torrentURLs cfg)) (downloadDir_of cfg)
                (emit (Go PeriodicAnnounce)
                   (emit (Go (LogPeriodicTorrentStatus
                                (filepath_Join (downloadDir_of cfg) ''seed_stats.txt'')
                                (fst (readTotalUploaded
                                        (filepath_Join (downloadDir_of cfg) ''seed_stats.txt'')
                                        (emit (Go SignalHandler) w)))))
                      (snd (readTotalUploaded
                              (filepath_Join (downloadDir_of cfg) ''seed_stats.txt'')
                              (emit (Go SignalHandler) w)))))"
    by (simp add: main_def Let_def split: prod.splits)
  from a b c d show ?thesis by blast
qed

lemma strings_TrimLeft_done:
  "find (\<lambda>r. r \<noteq> [] \<and> take (length r) s = r) runes = None \<Longrightarrow> strings_TrimLeft runes s = s"
  by (subst strings_TrimLeft.simps) simp

lemma strings_TrimLeft_step:
  "find (\<lambda>r. r \<noteq> [] \<and> take (length r) s = r) runes = Some r \<Longrightarrow>
   strings_TrimLeft runes s = strings_TrimLeft runes (drop (length r) s)"
  by (subst strings_TrimLeft.simps) simp

lemma parse_one: "parseTorrentURLs '' http://a.example/debian.torrent'' = [''http://a.example/debian.torrent'']"
proof -
  have split: "strings_Split CHR '','' '' http://a.example/debian.torrent''
               = ['' http://a.example/debian.torrent'']"
    by simp
  have lead: "strings_TrimLeft unicode_IsSpace '' http://a.example/debian.torrent''
              = ''http://a.example/debian.torrent''"
    by (subst strings_TrimLeft_step [where r = "'' ''"],
        simp add: unicode_IsSpace_def space_runes_def,
        subst strings_TrimLeft_done,
        simp_all add: unicode_IsSpace_def space_runes_def)
  have trail: "strings_TrimLeft (map rev unicode_IsSpace) (rev ''http://a.example/debian.torrent'')
               = rev ''http://a.example/debian.torrent''"
    by (subst strings_TrimLeft_done) (simp_all add: unicode_IsSpace_def space_runes_def)
  show ?thesis
    by (simp only: parseTorrentURLs_def split list.map strings_TrimSpace_def lead trail
          rev_rev_ident)
qed

theorem startup_needs_a_source_witness:
  "fst (main mirrors no_sources empty_world) = Some NoTorrentURLs
   \<and> goroutines (snd (main mirrors no_sources empty_world)) = [SignalHandler]
   \<and> fst (main mirrors one_source empty_world) = None
   \<and> goroutines (snd (main mirrors one_source empty_world))
     = [SignalHandler, LogPeriodicTorrentStatus ''dl/seed_stats.txt'' 0, PeriodicAnnounce,
        SeedTorrent [0xDE, 0xB1]]"
proof -
  have u0: "torrentURLs no_sources = []"
    by (simp add: torrentURLs_def getEnv_def no_sources_def)
  have u1: "torrentURLs one_source = '' http://a.example/debian.torrent''"
    by (simp add: torrentURLs_def getEnv_def one_source_def)
  have d1: "downloadDir_of one_source = ''dl''"
    by (simp add: downloadDir_of_def one_source_def)
  have j: "filepath_Join ''dl'' ''seed_stats.txt'' = ''dl/seed_stats.txt''"
    by (simp add: filepath_Join_def)
  have rd: "readTotalUploaded ''dl/seed_stats.txt'' (emit (Go SignalHandler) empty_world)
            = (0, emit (Log WarnOpenStats) (emit (Go SignalHandler) empty_world))"
    by (simp add: readTotalUploaded_def empty_world_def emit_def)
  have run: "goroutines (processTorrents mirrors [''http://a.example/debian.torrent''] ''dl''
               (emit (Go PeriodicAnnounce)
                  (emit (Go (LogPeriodicTorrentStatus ''dl/seed_stats.txt'' 0))
                     (emit (Log WarnOpenStats) (emit (Go SignalHandler) empty_world)))))
             = [SignalHandler, LogPeriodicTorrentStatus ''dl/seed_stats.txt'' 0, PeriodicAnnounce,
                SeedTorrent [0xDE, 0xB1]]"
    by (simp add: process_eval)
  have g0: "goroutines empty_world = []"
    by (simp add: goroutines_def empty_world_def)
  have pre: "torrentURLs one_source \<noteq> [] \<and> \<not> MkdirAll_fails mirrors (downloadDir_of one_source)
             \<and> \<not> NewClient_fails mirrors"
    by (simp add: u1 d1 mirrors_def)
  from startup_needs_a_source [of no_sources mirrors empty_world] u0
  have a: "fst (main mirrors no_sources empty_world) = Some NoTorrentURLs"
    and b: "goroutines (snd (main mirrors no_sources empty_world)) = goroutines empty_world @ [SignalHandler]"
    by blast+
  from startup_needs_a_source [of one_source mirrors empty_world] pre
  have c: "fst (main mirrors one_source empty_world) = None"
    and d: "snd (main mirrors one_source empty_world)
            = processTorrents mirrors (parseTorrentURLs (torrentURLs one_source)) (downloadDir_of one_source)
                (emit (Go PeriodicAnnounce)
                   (emit (Go (LogPeriodicTorrentStatus
                                (filepath_Join (downloadDir_of one_source) ''seed_stats.txt'')
                                (fst (readTotalUploaded
                                        (filepath_Join (downloadDir_of one_source) ''seed_stats.txt'')
                                        (emit (Go SignalHandler) empty_world)))))
                      (snd (readTotalUploaded
                              (filepath_Join (downloadDir_of one_source) ''seed_stats.txt'')
                              (emit (Go SignalHandler) empty_world)))))"
    by blast+
  have "goroutines (snd (main mirrors one_source empty_world))
        = [SignalHandler, LogPeriodicTorrentStatus ''dl/seed_stats.txt'' 0, PeriodicAnnounce,
           SeedTorrent [0xDE, 0xB1]]"
    by (simp only: d u1 d1 j rd parse_one fst_conv snd_conv run)
  with a b c g0 show ?thesis by simp
qed

subsection \<open>The goroutines and the cancellation (lines 306-311, 351-358, 378-393, 439-449)\<close>

lemma status_loop_returns:
  "CtxDone \<in> set es \<Longrightarrow> fst (logPeriodicTorrentStatus_for es f l w) = Returned"
  by (induction es f l w rule: logPeriodicTorrentStatus_for.induct)
     (auto split: prod.splits)

lemma announce_loop_returns:
  "CtxDone \<in> set es \<Longrightarrow> fst (periodicAnnounce es w) = Returned"
  by (induction es w rule: periodicAnnounce.induct) auto

lemma status_loop_stops_at_cancellation:
  "CtxDone \<notin> set es \<Longrightarrow>
   logPeriodicTorrentStatus_for (es @ CtxDone # later) f l w
     = (Returned, snd (logPeriodicTorrentStatus_for es f l w))"
  by (induction es f l w rule: logPeriodicTorrentStatus_for.induct)
     (auto split: prod.splits)

lemma announce_loop_stops_at_cancellation:
  "CtxDone \<notin> set es \<Longrightarrow>
   periodicAnnounce (es @ CtxDone # later) w = (Returned, snd (periodicAnnounce es w))"
  by (induction es w rule: periodicAnnounce.induct) auto

text \<open>
  Claim C3, as amended. Both periodic loops wait in a \<^verbatim>\<open>select\<close> that has the
  cancellation as one of its cases: once the cancellation is among the events served,
  each has returned, and it returns when it serves the cancellation, in the state the
  earlier events left, without serving any later tick. A job task has returned exactly
  when both the metadata has arrived and the context has been cancelled: its first wait
  receives from the metadata channel only, so as long as the metadata has not arrived the
  task stays where it started, cancelled or not. The task that waits for the metadata of
  a magnet link has returned exactly when the metadata has arrived.
\<close>

theorem cancellation_reaches_loops_and_seeding_jobs:
  "(CtxDone \<in> set history \<longrightarrow>
      fst (logPeriodicTorrentStatus history f T w) = Returned
      \<and> fst (periodicAnnounce history w) = Returned)
   \<and> (CtxDone \<notin> set es \<longrightarrow>
        logPeriodicTorrentStatus (es @ CtxDone # later) f T w
          = (Returned, snd (logPeriodicTorrentStatus es f T w))
        \<and> periodicAnnounce (es @ CtxDone # later) w = (Returned, snd (periodicAnnounce es w)))
   \<and> (fst (seedTorrent t history w) = Returned
        \<longleftrightarrow> GotInfo \<in> set history \<and> CtxDone \<in> set history)
   \<and> (GotInfo \<notin> set history \<longrightarrow> seedTorrent t history w = (Running, w))
   \<and> (fst (waitForMagnetMetadata t history w) = Returned \<longleftrightarrow> GotInfo \<in> set history)"
  by (auto simp: logPeriodicTorrentStatus_def status_loop_returns announce_loop_returns
      status_loop_stops_at_cancellation announce_loop_stops_at_cancellation
      seedTorrent_def waitForMagnetMetadata_def Let_def)

theorem cancellation_reaches_loops_and_seeding_jobs_witness:
  "fst (logPeriodicTorrentStatus [Tick (engine_of [job_with_peers 3]) NoFault, CtxDone]
          ''dl/seed_stats.txt'' 0 \<lparr>files = Map.empty, trace = []\<rparr>) = Returned
   \<and> fst (periodicAnnounce [Tick (engine_of [job_with_peers 3]) NoFault, CtxDone]
          \<lparr>files = Map.empty, trace = []\<rparr>) = Returned
   \<and> fst (seedTorrent (job_with_peers 3) [GotInfo, CtxDone] \<lparr>files = Map.empty, trace = []\<rparr>)
       = Returned
   \<and> seedTorrent (job_with_peers 3) [CtxDone] \<lparr>files = Map.empty, trace = []\<rparr>
       = (Running, \<lparr>files = Map.empty, trace = []\<rparr>)"
  using cancellation_reaches_loops_and_seeding_jobs
          [of "[Tick (engine_of [job_with_peers 3]) NoFault, CtxDone]" "''dl/seed_stats.txt''" 0
              "\<lparr>files = Map.empty, trace = []\<rparr>" "[]" "[]" "job_with_peers 3"]
        cancellation_reaches_loops_and_seeding_jobs
          [of "[GotInfo, CtxDone]" "''dl/seed_stats.txt''" 0
              "\<lparr>files = Map.empty, trace = []\<rparr>" "[]" "[]" "job_with_peers 3"]
        cancellation_reaches_loops_and_seeding_jobs
          [of "[CtxDone]" "''dl/seed_stats.txt''" 0
              "\<lparr>files = Map.empty, trace = []\<rparr>" "[]" "[]" "job_with_peers 3"]
  by simp

text \<open>
  Claim C3, as stated, fails: after the cancellation and two further ticks, a job task
  whose metadata has not arrived is still blocked, and so is the task waiting for the
  metadata of a magnet link.
\<close>

theorem job_waiting_for_metadata_ignores_cancellation:
  "fst (seedTorrent (job_with_peers 3)
          [CtxDone, Tick (engine_of [job_with_peers 3]) NoFault,
           Tick (engine_of [job_with_peers 3]) NoFault]
          \<lparr>files = Map.empty, trace = []\<rparr>) = Running
   \<and> fst (waitForMagnetMetadata (job_with_peers 3)
          [CtxDone, Tick (engine_of [job_with_peers 3]) NoFault,
           Tick (engine_of [job_with_peers 3]) NoFault]
          \<lparr>files = Map.empty, trace = []\<rparr>) = Running"
  by (simp add: seedTorrent_def waitForMagnetMetadata_def Let_def)

text \<open>
  Claim C9 at a concrete input: a job of 600 MB of which no byte has been downloaded. As
  soon as its metadata is available the job task tells the engine to download everything
  and logs the job as seeding, with nothing downloaded yet.
\<close>

theorem seeding_logged_with_partial_content:
  "trace (snd (seedTorrent (job_with_peers 3) [GotInfo] \<lparr>files = Map.empty, trace = []\<rparr>))
     = [DownloadAll (replicate 20 0xAB), Log (Seeding ''ubuntu-24.04-live-server-amd64.iso'' 600)]
   \<and> BytesCompleted (job_with_peers 3) = 0
   \<and> Length (job_with_peers 3) = 629145600"
  by (simp add: seedTorrent_def job_with_peers_def Let_def)

text \<open>
  The job task never looks at how much of the content is there.
\<close>

lemma seedTorrent_never_reads_completion:
  "seedTorrent (t\<lparr>BytesCompleted := b\<rparr>) history w = seedTorrent t history w"
  by (simp add: seedTorrent_def)

end
